theory Spec2Isabelle
  imports Main "HOL-Library.Word" "HOL-Library.Sublist"
begin

section \<open>Values of the script\<close>

text \<open>
  The script \<^verbatim>\<open>async.js\<close> works on three kinds of data: file names and messages
  (JavaScript strings, sequences of UTF-16 code units), file contents (Buffers, sequences
  of bytes) and error objects.  \<^verbatim>\<open>Buffer.prototype.toString\<close> belongs to the
  runtime, not to the script, so the decoder is a parameter of everything that calls it.
\<close>

type_synonym byte = "8 word"
type_synonym code_unit = "16 word"
type_synonym buffer = "byte list"
type_synonym jsstring = "code_unit list"
type_synonym error = string
type_synonym decoder = "buffer \<Rightarrow> jsstring"

text \<open>A string literal of the source, as code units.\<close>

definition lit :: "string \<Rightarrow> jsstring" where
  "lit s = map of_char s"

text \<open>
  \<^verbatim>\<open>String.prototype.slice(start, end)\<close>: a negative index counts from the end, both
  indices are clamped to the string, and an empty range gives the empty string.
\<close>

definition slice :: "'a list \<Rightarrow> int \<Rightarrow> int \<Rightarrow> 'a list" where
  "slice s start stop =
     (let len = int (length s);
          lo = (if start < 0 then max (len + start) 0 else min start len);
          hi = (if stop < 0 then max (len + stop) 0 else min stop len)
      in take (nat (hi - lo)) (drop (nat lo) s))"

text \<open>\<^verbatim>\<open>const string = data => data.toString().slice(0, -1)\<close>\<close>

definition string :: "decoder \<Rightarrow> buffer \<Rightarrow> jsstring" where
  "string toString data = slice (toString data) 0 (- 1)"

text \<open>
  The values that flow through callbacks and promises: \<^verbatim>\<open>undefined\<close>, a string, a
  Buffer, an error object, the response of the HTTP client, or a promise (by identity).
\<close>

datatype val =
    Undefined
  | Str jsstring
  | Buf buffer
  | ErrV error
  | Resp jsstring
  | Prom nat

text \<open>The functions the script declares.\<close>

datatype fn =
    F_scavengerHuntWithCallbacks
  | F_scavengerHuntWithPromiseDotThen
  | F_scavengerHuntWithPromiseAsyncAwait
  | F_logChainWithDotThen
  | F_logChainWithAwait
  | F_getCNN_async_await
  | F_getCNN_dot_then
  | F_waitTwoSecondsWithCallback
  | F_countDownWithCallback
  | F_waitTwoSecondsWithPromise
  | F_countDownWithPromiseDotThen
  | F_countDownWithPromiseAsyncAwait
  | F_newPromise

section \<open>Programs\<close>

text \<open>
  A piece of JavaScript that runs to completion without being interrupted (the top level
  of the file, the body of a callback, the part of an \<^verbatim>\<open>async\<close> function between two
  \<^verbatim>\<open>await\<close>s) is a term of \<open>prog\<close>: each constructor is one effect of the runtime
  followed by the rest of the code.  Callbacks are functions into \<open>prog\<close>.
\<close>

datatype prog =
    Return val
    \<comment> \<open>the end of a body, with its value\<close>
  | Throw val
    \<comment> \<open>an exception that leaves the body\<close>
  | Invoke fn prog
    \<comment> \<open>entry of a declared function, then its body\<close>
  | Log "val list" prog
    \<comment> \<open>\<^verbatim>\<open>console.log(args)\<close>\<close>
  | ReadFile jsstring "error + buffer \<Rightarrow> prog" prog
    \<comment> \<open>\<^verbatim>\<open>fs.readFile(path, (err, data) => ...)\<close>, for a name the runtime accepts\<close>
  | AxiosGet jsstring "nat \<Rightarrow> prog"
    \<comment> \<open>\<^verbatim>\<open>axios.get(url)\<close>, which gives a promise\<close>
  | SetTimeout prog nat prog
    \<comment> \<open>\<^verbatim>\<open>setTimeout(callback, ms)\<close>\<close>
  | NewPromise "nat \<Rightarrow> prog"
    \<comment> \<open>\<^verbatim>\<open>new Promise(...)\<close>: a pending promise\<close>
  | Resolve nat val prog
    \<comment> \<open>a call of the \<^verbatim>\<open>resolve\<close> function of a promise\<close>
  | Reject nat val prog
    \<comment> \<open>a call of the \<^verbatim>\<open>reject\<close> function of a promise\<close>
  | Then nat "val \<Rightarrow> prog" "val \<Rightarrow> prog" "nat \<Rightarrow> prog"
    \<comment> \<open>\<^verbatim>\<open>p.then(onFulfilled, onRejected)\<close>, which gives the derived promise\<close>
  | Await nat "val \<Rightarrow> prog" "val \<Rightarrow> prog"
    \<comment> \<open>\<^verbatim>\<open>await p\<close>: the rest of the body, and where a rejection is thrown to\<close>
  | Async prog "nat \<Rightarrow> prog"
    \<comment> \<open>a call of an \<^verbatim>\<open>async\<close> function with this body, which gives a promise\<close>
  | DeclareVar "nat \<Rightarrow> prog"
    \<comment> \<open>\<^verbatim>\<open>let x\<close>: a variable shared by closures, initially \<^verbatim>\<open>undefined\<close>\<close>
  | AssignVar nat jsstring prog
    \<comment> \<open>\<^verbatim>\<open>x = s\<close>\<close>
  | ReadVar nat "jsstring option \<Rightarrow> prog"
    \<comment> \<open>a read of \<^verbatim>\<open>x\<close>; \<open>None\<close> is \<^verbatim>\<open>undefined\<close>\<close>

section \<open>The runtime: promises, the job queues, the event loop\<close>

text \<open>
  Where the value of a finished job goes: nowhere (a callback of a timer or of I/O, a job
  of a promise that has no promise to settle), to whoever loaded the program, or into a
  promise.
\<close>

datatype target = Top | Main | Into nat

type_synonym reaction = "(val \<Rightarrow> prog) \<times> (val \<Rightarrow> prog) \<times> target"

datatype pstate =
    Pending "reaction list"
  | Fulfilled val
  | Rejected val bool
    \<comment> \<open>the flag: a rejection handler has been attached\<close>

datatype event =
    Called fn
  | Printed "val list"
  | FileRead jsstring
  | HttpRequest jsstring
  | TimerSet nat

text \<open>
  The world outside the script: the file system, the network, and how long each
  request takes (by the number of the request, so that requests may complete in any
  order).  Every read and every request completes, with data or with an error, and the
  file system does not change while the script runs.

  The reads that are modelled are those of names the runtime accepts.  A name with a NUL
  character is refused: \<^verbatim>\<open>fs.readFile\<close> throws at the call, before any read.  Under
  \<^verbatim>\<open>promisify\<close> that exception rejects the promise, which is what a failed read does
  too, so for \<open>readFilePromise\<close> a refused name is a name whose read fails.  A plain
  call of \<^verbatim>\<open>fs.readFile\<close> with a refused name is outside the model; \<open>accepted\<close>
  below says that a name is not refused.
\<close>

record env =
  fs :: "jsstring \<Rightarrow> error + buffer"
  net :: "jsstring \<Rightarrow> error + jsstring"
  latency :: "nat \<Rightarrow> nat"

record state =
  now :: nat
  trace :: "(nat \<times> event) list"
  promises :: "nat \<rightharpoonup> pstate"
  next_pid :: nat
  vars :: "nat \<rightharpoonup> jsstring option"
  next_var :: nat
  microtasks :: "(prog \<times> target) list"
  events :: "(nat \<times> prog) list"
  nreq :: nat
  uncaught :: "val option"
  result :: "val option"

definition init :: state where
  "init = \<lparr> now = 0, trace = [], promises = Map.empty, next_pid = 0,
            vars = Map.empty, next_var = 0, microtasks = [], events = [],
            nreq = 0, uncaught = None, result = None \<rparr>"

definition emit :: "event \<Rightarrow> state \<Rightarrow> state" where
  "emit ev s = s\<lparr>trace := trace s @ [(now s, ev)]\<rparr>"

text \<open>
  Pending callbacks of timers and of I/O wait in one queue ordered by the time they are
  due; callbacks due at the same time run in the order they were registered.
\<close>

fun enqueue_ev :: "nat \<times> prog \<Rightarrow> (nat \<times> prog) list \<Rightarrow> (nat \<times> prog) list" where
  "enqueue_ev e [] = [e]"
| "enqueue_ev e (x # xs) = (if fst e < fst x then e # x # xs else x # enqueue_ev e xs)"

definition schedule :: "nat \<Rightarrow> prog \<Rightarrow> state \<Rightarrow> state" where
  "schedule delay job s = s\<lparr>events := enqueue_ev (now s + delay, job) (events s)\<rparr>"

definition alloc :: "state \<Rightarrow> state" where
  "alloc s = s\<lparr>promises := (promises s)(next_pid s \<mapsto> Pending []),
               next_pid := Suc (next_pid s)\<rparr>"

text \<open>
  Rejecting a pending promise queues the rejection handler of each reaction; a settled
  promise ignores the call.
\<close>

definition reject_promise :: "nat \<Rightarrow> val \<Rightarrow> state \<Rightarrow> state" where
  "reject_promise p e s =
     (case promises s p of
        Some (Pending rs) \<Rightarrow>
          s\<lparr>promises := (promises s)(p \<mapsto> Rejected e (rs \<noteq> [])),
            microtasks := microtasks s @ map (\<lambda>(f, r, t). (r e, t)) rs\<rparr>
      | _ \<Rightarrow> s)"

text \<open>
  Resolving a pending promise with a plain value fulfils it and queues the fulfilment
  handler of each reaction.  Resolving it with another promise queues the job that calls
  \<^verbatim>\<open>then\<close> on that promise with the resolving functions of this one.  (The script
  resolves each promise once, so the rule that a promise resolved with another one
  ignores later calls of its resolving functions is never exercised.)
\<close>

definition adopt :: "nat \<Rightarrow> nat \<Rightarrow> prog" where
  "adopt p q =
     Then q (\<lambda>v. Resolve p v (Return Undefined)) (\<lambda>e. Reject p e (Return Undefined))
       (\<lambda>_. Return Undefined)"

definition resolve_promise :: "nat \<Rightarrow> val \<Rightarrow> state \<Rightarrow> state" where
  "resolve_promise p v s =
     (case promises s p of
        Some (Pending rs) \<Rightarrow>
          (case v of
             Prom q \<Rightarrow>
               if q = p then reject_promise p (ErrV ''TypeError'') s
               else s\<lparr>microtasks := microtasks s @ [(adopt p q, Top)]\<rparr>
           | _ \<Rightarrow>
               s\<lparr>promises := (promises s)(p \<mapsto> Fulfilled v),
                 microtasks := microtasks s @ map (\<lambda>(f, r, t). (f v, t)) rs\<rparr>)
      | _ \<Rightarrow> s)"

text \<open>
  Attaching a reaction: kept while the promise is pending, queued at once when it is
  settled.
\<close>

definition subscribe :: "nat \<Rightarrow> reaction \<Rightarrow> state \<Rightarrow> state" where
  "subscribe p rc s =
     (case promises s p of
        Some (Pending rs) \<Rightarrow> s\<lparr>promises := (promises s)(p \<mapsto> Pending (rs @ [rc]))\<rparr>
      | Some (Fulfilled v) \<Rightarrow> s\<lparr>microtasks := microtasks s @ [(fst rc v, snd (snd rc))]\<rparr>
      | Some (Rejected e h) \<Rightarrow>
          s\<lparr>promises := (promises s)(p \<mapsto> Rejected e True),
            microtasks := microtasks s @ [(fst (snd rc) e, snd (snd rc))]\<rparr>
      | None \<Rightarrow> s)"

definition finish_return :: "target \<Rightarrow> val \<Rightarrow> state \<Rightarrow> state" where
  "finish_return tgt v s =
     (case tgt of
        Top \<Rightarrow> s
      | Main \<Rightarrow> s\<lparr>result := Some v\<rparr>
      | Into p \<Rightarrow> resolve_promise p v s)"

definition finish_throw :: "target \<Rightarrow> val \<Rightarrow> state \<Rightarrow> state" where
  "finish_throw tgt e s =
     (case tgt of
        Top \<Rightarrow> s\<lparr>uncaught := Some e\<rparr>
      | Main \<Rightarrow> s\<lparr>uncaught := Some e\<rparr>
      | Into p \<Rightarrow> reject_promise p e s)"

definition http_job :: "env \<Rightarrow> jsstring \<Rightarrow> nat \<Rightarrow> prog" where
  "http_job env url p =
     (case net env url of
        Inl e \<Rightarrow> Reject p (ErrV e) (Return Undefined)
      | Inr r \<Rightarrow> Resolve p (Resp r) (Return Undefined))"

definition request :: "env \<Rightarrow> event \<Rightarrow> prog \<Rightarrow> state \<Rightarrow> state" where
  "request env ev job s =
     schedule (latency env (nreq s)) job ((emit ev s)\<lparr>nreq := Suc (nreq s)\<rparr>)"

text \<open>One job, run to its end.\<close>

primrec exec :: "env \<Rightarrow> prog \<Rightarrow> target \<Rightarrow> state \<Rightarrow> state" where
  "exec env (Return v) tgt s = finish_return tgt v s"
| "exec env (Throw e) tgt s = finish_throw tgt e s"
| "exec env (Invoke f k) tgt s = exec env k tgt (emit (Called f) s)"
| "exec env (Log args k) tgt s = exec env k tgt (emit (Printed args) s)"
| "exec env (ReadFile path cb k) tgt s =
     exec env k tgt (request env (FileRead path) (cb (fs env path)) s)"
| "exec env (AxiosGet url k) tgt s =
     exec env (k (next_pid s)) tgt
       (request env (HttpRequest url) (http_job env url (next_pid s)) (alloc s))"
| "exec env (SetTimeout cb ms k) tgt s =
     exec env k tgt (schedule ms cb (emit (TimerSet ms) s))"
| "exec env (NewPromise k) tgt s = exec env (k (next_pid s)) tgt (alloc s)"
| "exec env (Resolve p v k) tgt s = exec env k tgt (resolve_promise p v s)"
| "exec env (Reject p e k) tgt s = exec env k tgt (reject_promise p e s)"
| "exec env (Then p f r k) tgt s =
     exec env (k (next_pid s)) tgt (subscribe p (f, r, Into (next_pid s)) (alloc s))"
| "exec env (Await p f r) tgt s = subscribe p (f, r, tgt) s"
| "exec env (Async body k) tgt s =
     exec env (k (next_pid s)) tgt (exec env body (Into (next_pid s)) (alloc s))"
| "exec env (DeclareVar k) tgt s =
     exec env (k (next_var s)) tgt
       (s\<lparr>vars := (vars s)(next_var s \<mapsto> None), next_var := Suc (next_var s)\<rparr>)"
| "exec env (AssignVar x v k) tgt s = exec env k tgt (s\<lparr>vars := (vars s)(x \<mapsto> Some v)\<rparr>)"
| "exec env (ReadVar x k) tgt s = exec env (k (case vars s x of Some v \<Rightarrow> v | None \<Rightarrow> None)) tgt s"

text \<open>
  The event loop: jobs of promises first, in order; when there is none, the callback that
  is due next, at its time.  The process stops when nothing is left, or on an uncaught
  exception.  A rejection that nobody handles does not stop it here (recent versions of
  the runtime end the process on one, older ones print a warning); such rejections are
  counted by \<open>unhandled\<close> below, and what is proved about the whole script holds
  for every number of turns, so also for a process that ends early.
\<close>

definition idle :: "state \<Rightarrow> bool" where
  "idle s = (uncaught s \<noteq> None \<or> (microtasks s = [] \<and> events s = []))"

definition step :: "env \<Rightarrow> state \<Rightarrow> state" where
  "step env s =
     (case microtasks s of
        (p, tgt) # ms \<Rightarrow> exec env p tgt (s\<lparr>microtasks := ms\<rparr>)
      | [] \<Rightarrow>
          (case events s of
             [] \<Rightarrow> s
           | (due, p) # es \<Rightarrow> exec env p Top (s\<lparr>events := es, now := max (now s) due\<rparr>)))"

fun run_loop :: "env \<Rightarrow> nat \<Rightarrow> state \<Rightarrow> state" where
  "run_loop env 0 s = s"
| "run_loop env (Suc n) s = (if idle s then s else run_loop env n (step env s))"

text \<open>Loading a program: its top level runs first, then the event loop.\<close>

definition boot :: "env \<Rightarrow> prog \<Rightarrow> state" where
  "boot env p = exec env p Main init"

definition run :: "env \<Rightarrow> nat \<Rightarrow> prog \<Rightarrow> state" where
  "run env n p = run_loop env n (boot env p)"

section \<open>The script\<close>

text \<open>
  \<^verbatim>\<open>const readFilePromise = require("util").promisify(fs.readFile)\<close>: a new promise,
  rejected with the error of the read or resolved with its data.
\<close>

definition readFilePromise :: "jsstring \<Rightarrow> (nat \<Rightarrow> prog) \<Rightarrow> prog" where
  "readFilePromise path k =
     NewPromise (\<lambda>p.
       ReadFile path
         (\<lambda>r. case r of
                Inl err \<Rightarrow> Reject p (ErrV err) (Return Undefined)
              | Inr data \<Rightarrow> Resolve p (Buf data) (Return Undefined))
         (k p))"

text \<open>
  \<^verbatim>\<open>p.then(f)\<close> passes a rejection on, \<^verbatim>\<open>p.catch(g)\<close> passes a value on.
\<close>

definition dot_then :: "nat \<Rightarrow> (val \<Rightarrow> prog) \<Rightarrow> (nat \<Rightarrow> prog) \<Rightarrow> prog" where
  "dot_then p f k = Then p f Throw k"

definition dot_catch :: "nat \<Rightarrow> (val \<Rightarrow> prog) \<Rightarrow> (nat \<Rightarrow> prog) \<Rightarrow> prog" where
  "dot_catch p g k = Then p Return g k"

text \<open>
  The value a promise of \<open>readFilePromise\<close> is fulfilled with is a Buffer.  The
  helper \<open>string\<close> calls \<^verbatim>\<open>toString\<close> on its argument; on a value that has no such
  method (\<^verbatim>\<open>undefined\<close>) the call throws, to \<open>handler\<close>.
\<close>

definition of_buffer :: "val \<Rightarrow> (val \<Rightarrow> prog) \<Rightarrow> (buffer \<Rightarrow> prog) \<Rightarrow> prog" where
  "of_buffer v handler k = (case v of Buf b \<Rightarrow> k b | _ \<Rightarrow> handler (ErrV ''TypeError''))"

definition oops_lower :: jsstring where
  "oops_lower = lit ''Oops, there was an error:''"

definition oops_upper :: jsstring where
  "oops_upper = lit ''Oops, There was an error:''"

text \<open>Lines 30 to 41.\<close>

definition scavengerHuntWithCallbacks :: "decoder \<Rightarrow> jsstring \<Rightarrow> prog \<Rightarrow> prog" where
  "scavengerHuntWithCallbacks toString fileName1 k =
     Invoke F_scavengerHuntWithCallbacks
       (ReadFile fileName1
          (\<lambda>r. case r of
                 Inl err \<Rightarrow> Log [Str oops_lower, ErrV err] (Return Undefined)
               | Inr data1 \<Rightarrow>
                   (let fileName2 = string toString data1 in
                    ReadFile fileName2
                      (\<lambda>r. case r of
                             Inl err \<Rightarrow> Log [Str oops_lower, ErrV err] (Return Undefined)
                           | Inr data2 \<Rightarrow> Log [Str (string toString data2)] (Return Undefined))
                      (Return Undefined)))
          k)"

text \<open>Lines 47 to 52.  The function returns the promise of the last \<^verbatim>\<open>.catch\<close>.\<close>

definition scavengerHuntWithPromiseDotThen :: "decoder \<Rightarrow> jsstring \<Rightarrow> (nat \<Rightarrow> prog) \<Rightarrow> prog" where
  "scavengerHuntWithPromiseDotThen toString fileName1 k =
     Invoke F_scavengerHuntWithPromiseDotThen
       (readFilePromise fileName1 (\<lambda>p0.
        dot_then p0
          (\<lambda>data1. of_buffer data1 Throw (\<lambda>b1.
             readFilePromise (string toString b1) (\<lambda>q. Return (Prom q)))) (\<lambda>p1.
        dot_then p1
          (\<lambda>data2. of_buffer data2 Throw (\<lambda>b2.
             Log [Str (string toString b2)] (Return Undefined))) (\<lambda>p2.
        dot_catch p2
          (\<lambda>err. Log [Str oops_lower, err] (Return Undefined)) k))))"

text \<open>
  Lines 74 to 84 (this declaration replaces the one of lines 60 to 68, which has the same
  name).  Only the two \<^verbatim>\<open>await\<close>s and \<open>string\<close> can throw inside the
  \<^verbatim>\<open>try\<close> block, and what they throw goes to the \<^verbatim>\<open>catch\<close> block.
\<close>

definition scavengerHuntWithPromiseAsyncAwait :: "decoder \<Rightarrow> jsstring \<Rightarrow> (nat \<Rightarrow> prog) \<Rightarrow> prog" where
  "scavengerHuntWithPromiseAsyncAwait toString fileName1 k =
     Invoke F_scavengerHuntWithPromiseAsyncAwait
       (Async
          (let catch = (\<lambda>err. Log [Str oops_upper, err] (Return Undefined)) in
           readFilePromise fileName1 (\<lambda>promise1.
           Await promise1
             (\<lambda>data1. of_buffer data1 catch (\<lambda>b1.
                readFilePromise (string toString b1) (\<lambda>promise2.
                Await promise2
                  (\<lambda>data2. of_buffer data2 catch (\<lambda>b2.
                     Log [Str (string toString b2)] (Return Undefined)))
                  catch)))
             catch))
          k)"

text \<open>
  String concatenation with a variable that may still be \<^verbatim>\<open>undefined\<close>.
\<close>

definition text_of :: "jsstring option \<Rightarrow> jsstring" where
  "text_of x = (case x of Some s \<Rightarrow> s | None \<Rightarrow> lit ''undefined'')"

text \<open>Lines 88 to 97.  \<^verbatim>\<open>name2\<close> is shared by the two callbacks.\<close>

definition logChainWithDotThen :: "decoder \<Rightarrow> jsstring \<Rightarrow> (nat \<Rightarrow> prog) \<Rightarrow> prog" where
  "logChainWithDotThen toString name1 k =
     Invoke F_logChainWithDotThen
       (DeclareVar (\<lambda>name2.
        readFilePromise name1 (\<lambda>p0.
        dot_then p0
          (\<lambda>data1. of_buffer data1 Throw (\<lambda>b1.
             AssignVar name2 (string toString b1)
               (readFilePromise (string toString b1) (\<lambda>q. Return (Prom q))))) (\<lambda>p1.
        dot_then p1
          (\<lambda>data2. of_buffer data2 Throw (\<lambda>b2.
             ReadVar name2 (\<lambda>n2.
               Log [Str (name1 @ lit ''=>'' @ text_of n2 @ lit ''=>'' @ string toString b2)]
                 (Return Undefined)))) (\<lambda>p2.
        dot_catch p2
          (\<lambda>err. Log [Str oops_lower, err] (Return Undefined)) k)))))"

text \<open>Lines 101 to 109.\<close>

definition logChainWithAwait :: "decoder \<Rightarrow> jsstring \<Rightarrow> (nat \<Rightarrow> prog) \<Rightarrow> prog" where
  "logChainWithAwait toString name1 k =
     Invoke F_logChainWithAwait
       (Async
          (let catch = (\<lambda>err. Log [Str oops_upper, err] (Return Undefined)) in
           readFilePromise name1 (\<lambda>p1.
           Await p1
             (\<lambda>data1. of_buffer data1 catch (\<lambda>b1.
                readFilePromise (string toString b1) (\<lambda>p2.
                Await p2
                  (\<lambda>data2. of_buffer data2 catch (\<lambda>b2.
                     Log [Str (name1 @ lit ''=>'' @ string toString b1 @ lit ''=>''
                               @ string toString b2)]
                       (Return Undefined)))
                  catch)))
             catch))
          k)"

definition cnn :: jsstring where
  "cnn = lit ''http://www.cnn.com''"

definition marker1 :: jsstring where
  "marker1 = lit ''1before do two things''"

definition marker2 :: jsstring where
  "marker2 = lit ''2in do two things before await''"

definition marker3 :: jsstring where
  "marker3 = lit ''3after do two things''"

definition marker4 :: jsstring where
  "marker4 = lit ''4in do two things after await''"

text \<open>Lines 115 to 119.  There is no \<^verbatim>\<open>try\<close>: a rejection leaves the function.\<close>

definition getCNN_async_await :: "(nat \<Rightarrow> prog) \<Rightarrow> prog" where
  "getCNN_async_await k =
     Invoke F_getCNN_async_await
       (Async
          (Log [Str marker2]
             (AxiosGet cnn (\<lambda>p.
              Await p (\<lambda>_. Log [Str marker4] (Return Undefined)) Throw)))
          k)"

text \<open>Lines 126 to 131.\<close>

definition getCNN_dot_then :: "(nat \<Rightarrow> prog) \<Rightarrow> prog" where
  "getCNN_dot_then k =
     Invoke F_getCNN_dot_then
       (Log [Str marker2]
          (AxiosGet cnn (\<lambda>p.
           dot_then p (\<lambda>_. Log [Str marker4] (Return Undefined)) k)))"

text \<open>Lines 136 to 154.\<close>

definition waitTwoSecondsWithCallback :: "prog \<Rightarrow> prog \<Rightarrow> prog" where
  "waitTwoSecondsWithCallback callback k =
     Invoke F_waitTwoSecondsWithCallback (SetTimeout callback 2000 k)"

definition countDownWithCallback :: "prog \<Rightarrow> prog" where
  "countDownWithCallback k =
     Invoke F_countDownWithCallback
       (waitTwoSecondsWithCallback
          (Log [Str (lit ''You have six seconds, starting now!!'')]
            (waitTwoSecondsWithCallback
               (Log [Str (lit ''You have four seconds left.'')]
                 (waitTwoSecondsWithCallback
                    (Log [Str (lit ''You have just two seconds left. You'd better hurry!!'')]
                      (waitTwoSecondsWithCallback
                         (Log [Str (lit ''That's it!! Time's up!!'')] (Return Undefined))
                         (Return Undefined)))
                    (Return Undefined)))
               (Return Undefined)))
          k)"

text \<open>Lines 157 to 159: \<^verbatim>\<open>new Promise(resolve => setTimeout(resolve, 2000))\<close>.\<close>

definition waitTwoSecondsWithPromise :: "(nat \<Rightarrow> prog) \<Rightarrow> prog" where
  "waitTwoSecondsWithPromise k =
     Invoke F_waitTwoSecondsWithPromise
       (NewPromise (\<lambda>p. SetTimeout (Resolve p Undefined (Return Undefined)) 2000 (k p)))"

text \<open>Lines 162 to 179.  The function returns nothing.\<close>

definition countDownWithPromiseDotThen :: "prog \<Rightarrow> prog" where
  "countDownWithPromiseDotThen k =
     Invoke F_countDownWithPromiseDotThen
       (waitTwoSecondsWithPromise (\<lambda>p0.
        dot_then p0
          (\<lambda>_. Log [Str (lit ''You have six seconds, starting now!!'')]
                 (waitTwoSecondsWithPromise (\<lambda>q. Return (Prom q)))) (\<lambda>p1.
        dot_then p1
          (\<lambda>_. Log [Str (lit ''You have four seconds left.'')]
                 (waitTwoSecondsWithPromise (\<lambda>q. Return (Prom q)))) (\<lambda>p2.
        dot_then p2
          (\<lambda>_. Log [Str (lit ''You have just two seconds left. You'd better hurry!!'')]
                 (waitTwoSecondsWithPromise (\<lambda>q. Return (Prom q)))) (\<lambda>p3.
        dot_then p3
          (\<lambda>_. Log [Str (lit ''That's it! Time's up!!'')] (Return Undefined))
          (\<lambda>_. k))))))"

text \<open>Lines 182 to 191.\<close>

definition countDownWithPromiseAsyncAwait :: "(nat \<Rightarrow> prog) \<Rightarrow> prog" where
  "countDownWithPromiseAsyncAwait k =
     Invoke F_countDownWithPromiseAsyncAwait
       (Async
          (waitTwoSecondsWithPromise (\<lambda>w1. Await w1 (\<lambda>_.
           Log [Str (lit ''You have six seconds, starting now!!'')]
          (waitTwoSecondsWithPromise (\<lambda>w2. Await w2 (\<lambda>_.
           Log [Str (lit ''You have four seconds left.'')]
          (waitTwoSecondsWithPromise (\<lambda>w3. Await w3 (\<lambda>_.
           Log [Str (lit ''You have just two seconds left. You'd really better hurry!!'')]
          (waitTwoSecondsWithPromise (\<lambda>w4. Await w4 (\<lambda>_.
           Log [Str (lit ''That's it! Time's up!!'')]
          (Return Undefined)) Throw))) Throw))) Throw))) Throw))
          k)"

text \<open>
  Lines 199 to 205.  Neither \<^verbatim>\<open>error\<close> nor \<^verbatim>\<open>whatShouldBeReturned\<close> is declared
  anywhere, so the executor throws a ReferenceError, which rejects the promise.
\<close>

definition newPromise :: "(nat \<Rightarrow> prog) \<Rightarrow> prog" where
  "newPromise k =
     Invoke F_newPromise (NewPromise (\<lambda>p. Reject p (ErrV ''ReferenceError'') (k p)))"

definition one :: jsstring where
  "one = lit ''one''"

text \<open>The top level of the file, in source order.\<close>

definition script :: "decoder \<Rightarrow> prog" where
  "script toString =
     ReadFile one
       (\<lambda>r. case r of
              Inl err \<Rightarrow> Log [Str oops_lower, ErrV err] (Return Undefined)
            | Inr data \<Rightarrow> Log [Str (string toString data)] (Return Undefined))
    (readFilePromise one (\<lambda>promise.
     dot_then promise
       (\<lambda>data. of_buffer data Throw (\<lambda>b. Log [Str (string toString b)] (Return Undefined)))
       (\<lambda>t1.
     dot_catch t1 (\<lambda>err. Log [Str oops_lower, err] (Return Undefined)) (\<lambda>_.
     readFilePromise one (\<lambda>promise'.
     dot_then promise'
       (\<lambda>data. of_buffer data Throw (\<lambda>b. Log [Str (string toString b)] (Return Undefined)))
       (\<lambda>t2.
     dot_catch t2 (\<lambda>err. Log [Str oops_lower, err] (Return Undefined)) (\<lambda>_.
     scavengerHuntWithCallbacks toString one
    (scavengerHuntWithPromiseDotThen toString one (\<lambda>_.
     scavengerHuntWithPromiseAsyncAwait toString one (\<lambda>_.
     logChainWithDotThen toString one (\<lambda>_.
     logChainWithAwait toString one (\<lambda>_.
     Log [Str marker1]
    (getCNN_async_await (\<lambda>_.
     Log [Str marker3]
    (countDownWithCallback
    (countDownWithPromiseDotThen
    (countDownWithPromiseAsyncAwait (\<lambda>_. Return Undefined))))))))))))))))))"

text \<open>
  A caller that takes the promise a function returns and keeps it as the value of the
  program.
\<close>

definition return_promise :: "nat \<Rightarrow> prog" where
  "return_promise p = Return (Prom p)"

text \<open>Lines 115 to 123 alone: the demonstration of the order of execution.\<close>

definition interleaving :: prog where
  "interleaving =
     Log [Str marker1] (getCNN_async_await (\<lambda>_. Log [Str marker3] (Return Undefined)))"

section \<open>What is observed of a run\<close>

definition observed :: "state \<Rightarrow> event list" where
  "observed s = map snd (trace s)"

definition printed :: "state \<Rightarrow> val list list" where
  "printed s = concat (map (\<lambda>ev. case ev of Printed args \<Rightarrow> [args] | _ \<Rightarrow> []) (observed s))"

definition reads :: "state \<Rightarrow> jsstring list" where
  "reads s = concat (map (\<lambda>ev. case ev of FileRead path \<Rightarrow> [path] | _ \<Rightarrow> []) (observed s))"

definition requests :: "state \<Rightarrow> jsstring list" where
  "requests s = concat (map (\<lambda>ev. case ev of HttpRequest url \<Rightarrow> [url] | _ \<Rightarrow> []) (observed s))"

definition calls :: "state \<Rightarrow> fn list" where
  "calls s = concat (map (\<lambda>ev. case ev of Called f \<Rightarrow> [f] | _ \<Rightarrow> []) (observed s))"

text \<open>The lines of the console with the time at which each was printed.\<close>

definition printed_at :: "state \<Rightarrow> (nat \<times> val list) list" where
  "printed_at s =
     concat (map (\<lambda>(t, ev). case ev of Printed args \<Rightarrow> [(t, args)] | _ \<Rightarrow> []) (trace s))"

text \<open>The promises that were rejected and never got a rejection handler.\<close>

definition unhandled :: "state \<Rightarrow> nat list" where
  "unhandled s =
     filter (\<lambda>p. case promises s p of Some (Rejected e h) \<Rightarrow> \<not> h | _ \<Rightarrow> False)
       [0 ..< next_pid s]"

text \<open>The state of the promise that the loaded program returned, if it returned one.\<close>

definition returned :: "state \<Rightarrow> pstate option" where
  "returned s = (case result s of Some (Prom p) \<Rightarrow> promises s p | _ \<Rightarrow> None)"

text \<open>Nothing is left to run, and no exception reached the top.\<close>

definition quiescent :: "state \<Rightarrow> bool" where
  "quiescent s = (microtasks s = [] \<and> events s = [] \<and> uncaught s = None)"

definition summary :: "state \<Rightarrow> event list \<times> bool \<times> nat list \<times> pstate option" where
  "summary s = (observed s, quiescent s, unhandled s, returned s)"

text \<open>
  The two helpers that wait, as opposed to the functions that demonstrate something.
\<close>

definition helper :: "fn \<Rightarrow> bool" where
  "helper f = (f = F_waitTwoSecondsWithCallback \<or> f = F_waitTwoSecondsWithPromise)"

definition demo_calls :: "state \<Rightarrow> fn list" where
  "demo_calls s = filter (\<lambda>f. \<not> helper f) (calls s)"

section \<open>The behaviour the specification describes\<close>

text \<open>
  A chain of two files: read the first; its trimmed content names the second; read
  the second; print a line made of the trimmed contents.  On the first failure print a
  notice with the error and stop.
\<close>

definition chain_events ::
  "env \<Rightarrow> decoder \<Rightarrow> jsstring \<Rightarrow> (jsstring \<Rightarrow> jsstring \<Rightarrow> jsstring) \<Rightarrow> jsstring \<Rightarrow> event list" where
  "chain_events env toString notice line fileName1 =
     (case fs env fileName1 of
        Inl err \<Rightarrow> [FileRead fileName1, Printed [Str notice, ErrV err]]
      | Inr data1 \<Rightarrow>
          (case fs env (string toString data1) of
             Inl err \<Rightarrow>
               [FileRead fileName1, FileRead (string toString data1),
                Printed [Str notice, ErrV err]]
           | Inr data2 \<Rightarrow>
               [FileRead fileName1, FileRead (string toString data1),
                Printed [Str (line (string toString data1) (string toString data2))]]))"

definition arrow_line :: "jsstring \<Rightarrow> jsstring \<Rightarrow> jsstring \<Rightarrow> jsstring" where
  "arrow_line name1 name2 content = name1 @ lit ''=>'' @ name2 @ lit ''=>'' @ content"

text \<open>
  Two file systems that cannot be told apart through \<open>string\<close>: the same files
  fail, with the same errors, and the others have the same trimmed content.
\<close>

definition same_trimmed :: "decoder \<Rightarrow> env \<Rightarrow> env \<Rightarrow> bool" where
  "same_trimmed toString env env' =
     (\<forall>path. map_sum id (string toString) (fs env path) =
             map_sum id (string toString) (fs env' path))"

text \<open>
  The runtime accepts a file name that has no NUL character; the names of a chain are the
  one given and, when the first read succeeds, the trimmed content of the first file.
\<close>

definition accepted :: "jsstring \<Rightarrow> bool" where
  "accepted path = (0 \<notin> set path)"

definition names_accepted :: "env \<Rightarrow> decoder \<Rightarrow> jsstring \<Rightarrow> bool" where
  "names_accepted env toString fileName1 =
     (accepted fileName1 \<and>
      (case fs env fileName1 of
         Inl err \<Rightarrow> True
       | Inr data1 \<Rightarrow> accepted (string toString data1)))"

text \<open>
  Catch and print, for a chain of two files: when a read fails, the console has the one
  line of the notice with the error, and no file is read after the failure.  Whatever
  happens, nothing is left to run, no exception reached the top and no rejection is
  left without a handler.
\<close>

definition caught_and_printed :: "env \<Rightarrow> decoder \<Rightarrow> jsstring \<Rightarrow> jsstring \<Rightarrow> state \<Rightarrow> bool" where
  "caught_and_printed env toString notice fileName1 s =
     (quiescent s \<and> unhandled s = [] \<and>
      (case fs env fileName1 of
         Inl err \<Rightarrow> printed s = [[Str notice, ErrV err]] \<and> reads s = [fileName1]
       | Inr data1 \<Rightarrow>
           (case fs env (string toString data1) of
              Inl err \<Rightarrow>
                printed s = [[Str notice, ErrV err]] \<and>
                reads s = [fileName1, string toString data1]
            | Inr data2 \<Rightarrow> True)))"

section \<open>Programs that start no request and enter no demonstration function\<close>

primrec silent :: "prog \<Rightarrow> bool" where
  "silent (Return v) = True"
| "silent (Throw e) = True"
| "silent (Invoke f k) = (helper f \<and> silent k)"
| "silent (Log args k) = silent k"
| "silent (ReadFile path cb k) = ((\<forall>r. silent (cb r)) \<and> silent k)"
| "silent (AxiosGet url k) = False"
| "silent (SetTimeout cb ms k) = (silent cb \<and> silent k)"
| "silent (NewPromise k) = (\<forall>p. silent (k p))"
| "silent (Resolve p v k) = silent k"
| "silent (Reject p e k) = silent k"
| "silent (Then p f r k) =
     ((\<forall>v. silent (f v)) \<and> (\<forall>e. silent (r e)) \<and> (\<forall>q. silent (k q)))"
| "silent (Await p f r) = ((\<forall>v. silent (f v)) \<and> (\<forall>e. silent (r e)))"
| "silent (Async body k) = (silent body \<and> (\<forall>p. silent (k p)))"
| "silent (DeclareVar k) = (\<forall>x. silent (k x))"
| "silent (AssignVar x v k) = silent k"
| "silent (ReadVar x k) = (\<forall>v. silent (k v))"

text \<open>
  Every callback that the program hands to the runtime is silent; the program itself may
  start requests and enter functions while it runs.
\<close>

primrec defers_silent :: "prog \<Rightarrow> bool" where
  "defers_silent (Return v) = True"
| "defers_silent (Throw e) = True"
| "defers_silent (Invoke f k) = defers_silent k"
| "defers_silent (Log args k) = defers_silent k"
| "defers_silent (ReadFile path cb k) = ((\<forall>r. silent (cb r)) \<and> defers_silent k)"
| "defers_silent (AxiosGet url k) = (\<forall>p. defers_silent (k p))"
| "defers_silent (SetTimeout cb ms k) = (silent cb \<and> defers_silent k)"
| "defers_silent (NewPromise k) = (\<forall>p. defers_silent (k p))"
| "defers_silent (Resolve p v k) = defers_silent k"
| "defers_silent (Reject p e k) = defers_silent k"
| "defers_silent (Then p f r k) =
     ((\<forall>v. silent (f v)) \<and> (\<forall>e. silent (r e)) \<and> (\<forall>q. defers_silent (k q)))"
| "defers_silent (Await p f r) = ((\<forall>v. silent (f v)) \<and> (\<forall>e. silent (r e)))"
| "defers_silent (Async body k) = (defers_silent body \<and> (\<forall>p. defers_silent (k p)))"
| "defers_silent (DeclareVar k) = (\<forall>x. defers_silent (k x))"
| "defers_silent (AssignVar x v k) = defers_silent k"
| "defers_silent (ReadVar x k) = (\<forall>v. defers_silent (k v))"

definition silent_reaction :: "reaction \<Rightarrow> bool" where
  "silent_reaction rc = ((\<forall>v. silent (fst rc v)) \<and> (\<forall>e. silent (fst (snd rc) e)))"

definition quiet_state :: "state \<Rightarrow> bool" where
  "quiet_state s =
     ((\<forall>job \<in> set (microtasks s). silent (fst job)) \<and>
      (\<forall>ev \<in> set (events s). silent (snd ev)) \<and>
      (\<forall>p rs. promises s p = Some (Pending rs) \<longrightarrow> (\<forall>rc \<in> set rs. silent_reaction rc)))"

text \<open>The requests and the entries of demonstration functions in a list of events.\<close>

definition loud :: "event list \<Rightarrow> event list" where
  "loud evs =
     filter (\<lambda>ev. case ev of Called f \<Rightarrow> \<not> helper f | HttpRequest url \<Rightarrow> True | _ \<Rightarrow> False) evs"

section \<open>Two concrete worlds\<close>

text \<open>
  On bytes below 128 the UTF-8 decoder of \<^verbatim>\<open>toString\<close> gives one code unit per
  byte, with the same number.
\<close>

definition toString_ascii :: decoder where
  "toString_ascii data = map ucast data"

definition bytes :: "string \<Rightarrow> buffer" where
  "bytes s = map of_char s"

text \<open>
  A directory with the file \<^verbatim>\<open>one\<close> that names the file \<^verbatim>\<open>two\<close>, each ending
  in a newline, and a network that answers.
\<close>

definition treasure_env :: env where
  "treasure_env =
     \<lparr> fs = (\<lambda>path. if path = lit ''one'' then Inr (bytes ''two\<newline>'')
                      else if path = lit ''two'' then Inr (bytes ''treasure\<newline>'')
                      else Inl ''ENOENT''),
       net = (\<lambda>url. Inr (lit ''<html>'')),
       latency = (\<lambda>i. 5 + i) \<rparr>"

text \<open>The same directory, with another last byte in each file.\<close>

definition ragged_env :: env where
  "ragged_env =
     \<lparr> fs = (\<lambda>path. if path = lit ''one'' then Inr (bytes ''two!'')
                      else if path = lit ''two'' then Inr (bytes ''treasure?'')
                      else Inl ''ENOENT''),
       net = (\<lambda>url. Inr (lit ''<html>'')),
       latency = (\<lambda>i. 9) \<rparr>"

text \<open>An empty directory, and no network.\<close>

definition empty_env :: env where
  "empty_env =
     \<lparr> fs = (\<lambda>path. Inl ''ENOENT''),
       net = (\<lambda>url. Inl ''ENOTFOUND''),
       latency = (\<lambda>i. 5 + i) \<rparr>"

text \<open>A directory where \<^verbatim>\<open>one\<close> names a file that does not exist.\<close>

definition dangling_env :: env where
  "dangling_env =
     \<lparr> fs = (\<lambda>path. if path = lit ''one'' then Inr (bytes ''two\<newline>'') else Inl ''ENOENT''),
       net = (\<lambda>url. Inr (lit ''<html>'')),
       latency = (\<lambda>i. 5 + i) \<rparr>"

section \<open>Lemmas\<close>

subsection \<open>Strings\<close>

lemma of_char_word_eq_iff: "(of_char c :: code_unit) = of_char d \<longleftrightarrow> c = d"
proof
  assume h: "(of_char c :: code_unit) = of_char d"
  have "unat (of_nat (of_char c) :: code_unit) = unat (of_nat (of_char d) :: code_unit)"
    using h by (simp only: of_nat_of_char)
  moreover have "(of_char c :: nat) < 2 ^ 16" "(of_char d :: nat) < 2 ^ 16"
    by (rule less_trans [OF nat_of_char_less_256], simp)+
  ultimately have "(of_char c :: nat) = of_char d"
    by (simp add: unat_of_nat)
  then show "c = d" by simp
qed simp

lemma inj_of_char_word: "inj (of_char :: char \<Rightarrow> code_unit)"
  by (rule injI) (simp only: of_char_word_eq_iff)

lemma lit_eq_iff: "lit a = lit b \<longleftrightarrow> a = b"
  unfolding lit_def by (rule inj_map_eq_map [OF inj_of_char_word])

lemma lit_append: "lit a @ lit b = lit (a @ b)"
  by (simp add: lit_def)

lemma butlast_lit: "butlast (lit a) = lit (butlast a)"
  by (simp add: lit_def map_butlast)

lemma of_char_word_zero: "(of_char c :: code_unit) = 0 \<longleftrightarrow> c = CHR 0x00"
proof -
  have "(of_char (CHR 0x00) :: code_unit) = 0"
    by simp
  with of_char_word_eq_iff [of c "CHR 0x00"] show ?thesis
    by (simp only:)
qed

lemma accepted_lit: "accepted (lit s) \<longleftrightarrow> CHR 0x00 \<notin> set s"
  unfolding accepted_def lit_def set_map image_iff
  by (metis of_char_word_zero)

lemma slice_drop_last: "slice s 0 (- 1) = butlast s"
proof -
  have "nat (max (int (length s) - 1) 0) = length s - 1"
    by (cases s) simp_all
  then show ?thesis
    by (simp add: slice_def butlast_conv_take)
qed

lemma string_butlast: "string toString data = butlast (toString data)"
  by (simp add: string_def slice_drop_last)

lemma ucast_of_char: "(ucast (of_char c :: byte) :: code_unit) = of_char c"
proof -
  have small: "(of_char c :: nat) < 2 ^ 8"
    by (rule less_le_trans [OF nat_of_char_less_256]) simp
  have "(ucast (of_nat (of_char c) :: byte) :: code_unit) = of_nat (take_bit 8 (of_char c :: nat))"
    by (simp add: unsigned_of_nat del: of_nat_of_char)
  also have "take_bit 8 (of_char c :: nat) = of_char c"
    using small by (simp only: take_bit_nat_eq_self)
  finally show ?thesis
    by (simp only: of_nat_of_char)
qed

lemma toString_ascii_bytes: "toString_ascii (bytes s) = lit s"
  by (simp add: toString_ascii_def bytes_def lit_def ucast_of_char)

lemma string_ascii_bytes: "string toString_ascii (bytes s) = lit (butlast s)"
  by (simp add: string_butlast toString_ascii_bytes butlast_lit)

subsection \<open>The event loop stops\<close>

lemma run_loop_idle: "idle s \<Longrightarrow> run_loop env n s = s"
  by (cases n) simp_all

lemma run_loop_add: "run_loop env (n + m) s = run_loop env m (run_loop env n s)"
  by (induction n arbitrary: s) (simp_all add: run_loop_idle)

lemma quiescent_idle: "quiescent s \<Longrightarrow> idle s"
  by (simp add: quiescent_def idle_def)

lemma run_enough:
  assumes "quiescent (run env n p)" and "n \<le> m"
  shows "run env m p = run env n p"
proof -
  from \<open>n \<le> m\<close> obtain d where "m = n + d"
    using le_Suc_ex by blast
  then show ?thesis
    using assms(1) by (simp add: run_def run_loop_add run_loop_idle quiescent_idle)
qed

lemma summary_enough:
  assumes "summary (run env n p) = (evs, True, u, r)" and "n \<le> m"
  shows "summary (run env m p) = (evs, True, u, r)"
proof -
  from assms(1) have "quiescent (run env n p)"
    by (simp add: summary_def)
  from run_enough [OF this \<open>n \<le> m\<close>] assms(1) show ?thesis
    by simp
qed

subsection \<open>Each function, loaded alone\<close>

text \<open>
  The runs below are computed by unfolding the runtime on a symbolic world; the only case
  distinctions are on what the file system and the network answer.
\<close>

lemmas runtime_defs =
  run_def boot_def init_def step_def idle_def emit_def schedule_def alloc_def request_def
  reject_promise_def resolve_promise_def adopt_def subscribe_def finish_return_def
  finish_throw_def http_job_def

lemma run_loop_numeral:
  "run_loop env (numeral k) s =
     (if idle s then s else run_loop env (pred_numeral k) (step env s))"
  by (simp add: numeral_eq_Suc)

lemmas eval_defs =
  runtime_defs readFilePromise_def dot_then_def dot_catch_def of_buffer_def text_of_def
  return_promise_def
  run_loop_numeral Let_def
  quiescent_def observed_def unhandled_def returned_def summary_def

lemma hunt_callbacks_summary:
  "summary (run env 2 (scavengerHuntWithCallbacks toString fileName1 (Return Undefined))) =
     (Called F_scavengerHuntWithCallbacks # chain_events env toString oops_lower (\<lambda>name2 content. content) fileName1,
      True, [], None)"
proof (cases "fs env fileName1")
  case (Inl e)
  then show ?thesis
    by (simp add: scavengerHuntWithCallbacks_def chain_events_def arrow_line_def eval_defs)
next
  case first: (Inr data1)
  show ?thesis
  proof (cases "fs env (string toString data1)")
    case (Inl e)
    with first show ?thesis
      by (simp add: scavengerHuntWithCallbacks_def chain_events_def arrow_line_def eval_defs)
  next
    case (Inr data2)
    with first show ?thesis
      by (simp add: scavengerHuntWithCallbacks_def chain_events_def arrow_line_def eval_defs)
  qed
qed

lemma hunt_then_summary:
  "summary (run env 7 (scavengerHuntWithPromiseDotThen toString fileName1 return_promise)) =
     (Called F_scavengerHuntWithPromiseDotThen # chain_events env toString oops_lower (\<lambda>name2 content. content) fileName1,
      True, [], Some (Fulfilled Undefined))"
proof (cases "fs env fileName1")
  case (Inl e)
  then show ?thesis
    by (simp add: scavengerHuntWithPromiseDotThen_def chain_events_def arrow_line_def eval_defs)
next
  case first: (Inr data1)
  show ?thesis
  proof (cases "fs env (string toString data1)")
    case (Inl e)
    with first show ?thesis
      by (simp add: scavengerHuntWithPromiseDotThen_def chain_events_def arrow_line_def eval_defs)
  next
    case (Inr data2)
    with first show ?thesis
      by (simp add: scavengerHuntWithPromiseDotThen_def chain_events_def arrow_line_def eval_defs)
  qed
qed

lemma hunt_then_catch_first:
  assumes "fs env fileName1 = Inl err"
  shows "result (run env 7 (scavengerHuntWithPromiseDotThen toString fileName1 return_promise)) =
      Some (Prom (Suc (Suc (Suc 0))))"
    and "promises (run env 7 (scavengerHuntWithPromiseDotThen toString fileName1 return_promise))
        (Suc (Suc 0)) =
      Some (Rejected (ErrV err) True)"
  using assms
  by (simp_all add: scavengerHuntWithPromiseDotThen_def eval_defs)

lemma hunt_then_catch_second:
  assumes "fs env fileName1 = Inr data1" and "fs env (string toString data1) = Inl err"
  shows "result (run env 7 (scavengerHuntWithPromiseDotThen toString fileName1 return_promise)) =
      Some (Prom (Suc (Suc (Suc 0))))"
    and "promises (run env 7 (scavengerHuntWithPromiseDotThen toString fileName1 return_promise))
        (Suc (Suc 0)) =
      Some (Rejected (ErrV err) True)"
  using assms
  by (simp_all add: scavengerHuntWithPromiseDotThen_def eval_defs)

lemma hunt_then_catch_none:
  assumes "fs env fileName1 = Inr data1" and "fs env (string toString data1) = Inr data2"
  shows "result (run env 7 (scavengerHuntWithPromiseDotThen toString fileName1 return_promise)) =
      Some (Prom (Suc (Suc (Suc 0))))"
    and "promises (run env 7 (scavengerHuntWithPromiseDotThen toString fileName1 return_promise))
        (Suc (Suc 0)) =
      Some (Fulfilled Undefined)"
  using assms
  by (simp_all add: scavengerHuntWithPromiseDotThen_def eval_defs)

lemma hunt_await_summary:
  "summary (run env 4 (scavengerHuntWithPromiseAsyncAwait toString fileName1 return_promise)) =
     (Called F_scavengerHuntWithPromiseAsyncAwait # chain_events env toString oops_upper (\<lambda>name2 content. content) fileName1,
      True, [], Some (Fulfilled Undefined))"
proof (cases "fs env fileName1")
  case (Inl e)
  then show ?thesis
    by (simp add: scavengerHuntWithPromiseAsyncAwait_def chain_events_def arrow_line_def eval_defs)
next
  case first: (Inr data1)
  show ?thesis
  proof (cases "fs env (string toString data1)")
    case (Inl e)
    with first show ?thesis
      by (simp add: scavengerHuntWithPromiseAsyncAwait_def chain_events_def arrow_line_def eval_defs)
  next
    case (Inr data2)
    with first show ?thesis
      by (simp add: scavengerHuntWithPromiseAsyncAwait_def chain_events_def arrow_line_def eval_defs)
  qed
qed

lemma chain_then_summary:
  "summary (run env 7 (logChainWithDotThen toString fileName1 return_promise)) =
     (Called F_logChainWithDotThen # chain_events env toString oops_lower (arrow_line fileName1) fileName1,
      True, [], Some (Fulfilled Undefined))"
proof (cases "fs env fileName1")
  case (Inl e)
  then show ?thesis
    by (simp add: logChainWithDotThen_def chain_events_def arrow_line_def eval_defs)
next
  case first: (Inr data1)
  show ?thesis
  proof (cases "fs env (string toString data1)")
    case (Inl e)
    with first show ?thesis
      by (simp add: logChainWithDotThen_def chain_events_def arrow_line_def eval_defs)
  next
    case (Inr data2)
    with first show ?thesis
      by (simp add: logChainWithDotThen_def chain_events_def arrow_line_def eval_defs)
  qed
qed

lemma chain_await_summary:
  "summary (run env 4 (logChainWithAwait toString fileName1 return_promise)) =
     (Called F_logChainWithAwait # chain_events env toString oops_upper (arrow_line fileName1) fileName1,
      True, [], Some (Fulfilled Undefined))"
proof (cases "fs env fileName1")
  case (Inl e)
  then show ?thesis
    by (simp add: logChainWithAwait_def chain_events_def arrow_line_def eval_defs)
next
  case first: (Inr data1)
  show ?thesis
  proof (cases "fs env (string toString data1)")
    case (Inl e)
    with first show ?thesis
      by (simp add: logChainWithAwait_def chain_events_def arrow_line_def eval_defs)
  next
    case (Inr data2)
    with first show ?thesis
      by (simp add: logChainWithAwait_def chain_events_def arrow_line_def eval_defs)
  qed
qed

lemma getCNN_await_fails:
  "net env cnn = Inl e \<Longrightarrow>
   summary (run env 2 (getCNN_async_await return_promise)) =
     ([Called F_getCNN_async_await, Printed [Str marker2], HttpRequest cnn],
      True, [0], Some (Rejected (ErrV e) False))"
  by (simp add: getCNN_async_await_def eval_defs)

lemma getCNN_await_answers:
  "net env cnn = Inr r \<Longrightarrow>
   summary (run env 2 (getCNN_async_await return_promise)) =
     ([Called F_getCNN_async_await, Printed [Str marker2], HttpRequest cnn,
       Printed [Str marker4]],
      True, [], Some (Fulfilled Undefined))"
  by (simp add: getCNN_async_await_def eval_defs)

lemma getCNN_then_fails:
  "net env cnn = Inl e \<Longrightarrow>
   summary (run env 2 (getCNN_dot_then return_promise)) =
     ([Called F_getCNN_dot_then, Printed [Str marker2], HttpRequest cnn],
      True, [1], Some (Rejected (ErrV e) False))"
  by (simp add: getCNN_dot_then_def eval_defs)

lemma getCNN_then_answers:
  "net env cnn = Inr r \<Longrightarrow>
   summary (run env 2 (getCNN_dot_then return_promise)) =
     ([Called F_getCNN_dot_then, Printed [Str marker2], HttpRequest cnn,
       Printed [Str marker4]],
      True, [], Some (Fulfilled Undefined))"
  by (simp add: getCNN_dot_then_def eval_defs)

lemma interleaving_fails:
  "net env cnn = Inl e \<Longrightarrow>
   summary (run env 2 interleaving) =
     ([Printed [Str marker1], Called F_getCNN_async_await, Printed [Str marker2],
       HttpRequest cnn, Printed [Str marker3]],
      True, [0], None)"
  by (simp add: interleaving_def getCNN_async_await_def eval_defs)

lemma interleaving_answers:
  "net env cnn = Inr r \<Longrightarrow>
   summary (run env 2 interleaving) =
     ([Printed [Str marker1], Called F_getCNN_async_await, Printed [Str marker2],
       HttpRequest cnn, Printed [Str marker3], Printed [Str marker4]],
      True, [], None)"
  by (simp add: interleaving_def getCNN_async_await_def eval_defs)

lemma interleaving_boot:
  "observed (boot env interleaving) =
     [Printed [Str marker1], Called F_getCNN_async_await, Printed [Str marker2],
      HttpRequest cnn, Printed [Str marker3]]"
  by (simp add: interleaving_def getCNN_async_await_def eval_defs)

lemma countdown_callback_run:
  "printed_at (run env 4 (countDownWithCallback (Return Undefined))) =
     [(2000, [Str (lit ''You have six seconds, starting now!!'')]),
      (4000, [Str (lit ''You have four seconds left.'')]),
      (6000, [Str (lit ''You have just two seconds left. You'd better hurry!!'')]),
      (8000, [Str (lit ''That's it!! Time's up!!'')])]"
  "quiescent (run env 4 (countDownWithCallback (Return Undefined)))"
  by (simp_all add: countDownWithCallback_def waitTwoSecondsWithCallback_def printed_at_def eval_defs)

lemma countdown_then_run:
  "printed_at (run env 14 (countDownWithPromiseDotThen (Return Undefined))) =
     [(2000, [Str (lit ''You have six seconds, starting now!!'')]),
      (4000, [Str (lit ''You have four seconds left.'')]),
      (6000, [Str (lit ''You have just two seconds left. You'd better hurry!!'')]),
      (8000, [Str (lit ''That's it! Time's up!!'')])]"
  "quiescent (run env 14 (countDownWithPromiseDotThen (Return Undefined)))"
  by (simp_all add: countDownWithPromiseDotThen_def waitTwoSecondsWithPromise_def printed_at_def eval_defs)

lemma countdown_await_run:
  "printed_at (run env 8 (countDownWithPromiseAsyncAwait return_promise)) =
     [(2000, [Str (lit ''You have six seconds, starting now!!'')]),
      (4000, [Str (lit ''You have four seconds left.'')]),
      (6000, [Str (lit ''You have just two seconds left. You'd really better hurry!!'')]),
      (8000, [Str (lit ''That's it! Time's up!!'')])]"
  "quiescent (run env 8 (countDownWithPromiseAsyncAwait return_promise))"
  by (simp_all add: countDownWithPromiseAsyncAwait_def waitTwoSecondsWithPromise_def printed_at_def eval_defs)

subsection \<open>The console only grows\<close>

lemma observed_emit: "observed (emit ev s) = observed s @ [ev]"
  by (simp add: observed_def emit_def)

lemma observed_schedule: "observed (schedule d job s) = observed s"
  by (simp add: observed_def schedule_def)

lemma observed_request: "observed (request env ev job s) = observed s @ [ev]"
  by (simp add: observed_def request_def schedule_def emit_def)

lemma observed_alloc: "observed (alloc s) = observed s"
  by (simp add: observed_def alloc_def)

lemma observed_reject: "observed (reject_promise p e s) = observed s"
  by (simp add: observed_def reject_promise_def split: option.split pstate.split)

lemma observed_resolve: "observed (resolve_promise p v s) = observed s"
  by (simp add: observed_def resolve_promise_def reject_promise_def
      split: option.split pstate.split val.split)

lemma observed_subscribe: "observed (subscribe p rc s) = observed s"
  by (simp add: observed_def subscribe_def split: option.split pstate.split)

lemma observed_finish_return: "observed (finish_return tgt v s) = observed s"
  by (cases tgt) (simp_all add: finish_return_def observed_resolve, simp_all add: observed_def)

lemma observed_finish_throw: "observed (finish_throw tgt e s) = observed s"
  by (cases tgt) (simp_all add: finish_throw_def observed_reject, simp_all add: observed_def)

lemma observed_vars: "observed (s\<lparr>vars := x, next_var := y\<rparr>) = observed s"
  "observed (s\<lparr>vars := x\<rparr>) = observed s"
  "observed (s\<lparr>microtasks := m\<rparr>) = observed s"
  "observed (s\<lparr>events := es, now := t\<rparr>) = observed s"
  by (simp_all add: observed_def)

lemmas observed_simps =
  observed_emit observed_schedule observed_request observed_alloc observed_reject
  observed_resolve observed_subscribe observed_finish_return observed_finish_throw
  observed_vars

lemma exec_grows: "prefix (observed s) (observed (exec env p tgt s))"
proof (induction p arbitrary: tgt s)
  case (Return v)
  show ?case by (simp add: observed_simps)
next
  case (Throw e)
  show ?case by (simp add: observed_simps)
next
  case (Invoke f k)
  from Invoke.IH [of "emit (Called f) s" tgt] show ?case
    by (simp add: observed_simps append_prefixD)
next
  case (Log args k)
  from Log.IH [of "emit (Printed args) s" tgt] show ?case
    by (simp add: observed_simps append_prefixD)
next
  case (ReadFile path cb k)
  from ReadFile.IH(2) [of "request env (FileRead path) (cb (fs env path)) s" tgt] show ?case
    by (simp add: observed_simps append_prefixD)
next
  case (AxiosGet url k)
  from AxiosGet.IH [of "k (next_pid s)" "request env (HttpRequest url) (http_job env url (next_pid s)) (alloc s)" tgt]
  show ?case
    by (simp add: observed_simps append_prefixD)
next
  case (SetTimeout cb ms k)
  from SetTimeout.IH(2) [of "schedule ms cb (emit (TimerSet ms) s)" tgt] show ?case
    by (simp add: observed_simps append_prefixD)
next
  case (NewPromise k)
  from NewPromise.IH [of "k (next_pid s)" "alloc s" tgt] show ?case
    by (simp add: observed_simps)
next
  case (Resolve p v k)
  from Resolve.IH [of "resolve_promise p v s" tgt] show ?case
    by (simp add: observed_simps)
next
  case (Reject p e k)
  from Reject.IH [of "reject_promise p e s" tgt] show ?case
    by (simp add: observed_simps)
next
  case (Then p f r k)
  from Then.IH(3) [of "k (next_pid s)" "subscribe p (f, r, Into (next_pid s)) (alloc s)" tgt]
  show ?case
    by (simp add: observed_simps)
next
  case (Await p f r)
  show ?case by (simp add: observed_simps)
next
  case (Async body k)
  have "prefix (observed (alloc s)) (observed (exec env body (Into (next_pid s)) (alloc s)))"
    by (rule Async.IH(1))
  moreover have "prefix (observed (exec env body (Into (next_pid s)) (alloc s)))
      (observed (exec env (k (next_pid s)) tgt (exec env body (Into (next_pid s)) (alloc s))))"
    by (rule Async.IH(2)) simp
  ultimately have "prefix (observed (alloc s))
      (observed (exec env (k (next_pid s)) tgt (exec env body (Into (next_pid s)) (alloc s))))"
    by (rule prefix_order.trans)
  then show ?case
    by (simp add: observed_simps)
next
  case (DeclareVar k)
  from DeclareVar.IH [of "k (next_var s)" "s\<lparr>vars := (vars s)(next_var s \<mapsto> None), next_var := Suc (next_var s)\<rparr>" tgt]
  show ?case
    by (simp add: observed_simps)
next
  case (AssignVar x v k)
  from AssignVar.IH [of "s\<lparr>vars := (vars s)(x \<mapsto> Some v)\<rparr>" tgt] show ?case
    by (simp add: observed_simps)
next
  case (ReadVar x k)
  from ReadVar.IH [of "k (case vars s x of Some v \<Rightarrow> v | None \<Rightarrow> None)" s tgt] show ?case
    by simp
qed

lemma step_grows: "prefix (observed s) (observed (step env s))"
proof (cases "microtasks s")
  case Nil
  show ?thesis
  proof (cases "events s")
    case Nil
    with \<open>microtasks s = []\<close> show ?thesis by (simp add: step_def)
  next
    case (Cons ev es)
    obtain due p where "ev = (due, p)" by (cases ev)
    with Cons \<open>microtasks s = []\<close>
    have "step env s = exec env p Top (s\<lparr>events := es, now := max (now s) due\<rparr>)"
      by (simp add: step_def)
    with exec_grows [of "s\<lparr>events := es, now := max (now s) due\<rparr>" env p Top] show ?thesis
      by (simp add: observed_simps)
  qed
next
  case (Cons job ms)
  obtain p tgt where "job = (p, tgt)" by (cases job)
  with Cons have "step env s = exec env p tgt (s\<lparr>microtasks := ms\<rparr>)"
    by (simp add: step_def)
  with exec_grows [of "s\<lparr>microtasks := ms\<rparr>" env p tgt] show ?thesis
    by (simp add: observed_simps)
qed

lemma run_loop_grows: "prefix (observed s) (observed (run_loop env n s))"
proof (induction n arbitrary: s)
  case 0
  show ?case by simp
next
  case (Suc n)
  show ?case
  proof (cases "idle s")
    case True
    then show ?thesis by simp
  next
    case False
    have "prefix (observed s) (observed (step env s))"
      by (rule step_grows)
    also have "prefix (observed (step env s)) (observed (run_loop env n (step env s)))"
      by (rule Suc.IH)
    finally show ?thesis
      using False by simp
  qed
qed

lemma run_grows: "prefix (observed (boot env p)) (observed (run env n p))"
  by (simp add: run_def run_loop_grows)

subsection \<open>Callbacks start no request and enter no demonstration function\<close>

lemma loud_append: "loud (xs @ ys) = loud xs @ loud ys"
  by (simp add: loud_def)

lemma loud_single:
  "loud [Printed args] = []"
  "loud [FileRead path] = []"
  "loud [TimerSet ms] = []"
  "loud [HttpRequest url] = [HttpRequest url]"
  "loud [Called f] = (if helper f then [] else [Called f])"
  by (simp_all add: loud_def)

lemma exec_silent_loud:
  "silent p \<Longrightarrow> loud (observed (exec env p tgt s)) = loud (observed s)"
  by (induction p arbitrary: tgt s) (simp_all add: observed_simps loud_append loud_single)

lemma set_enqueue_ev: "set (enqueue_ev e es) = insert e (set es)"
  by (induction es) auto

lemma silent_adopt: "silent (adopt p q)"
  by (simp add: adopt_def)

lemma silent_http_job: "silent (http_job env url p)"
  by (simp add: http_job_def split: sum.split)

lemma quiet_emit: "quiet_state (emit ev s) = quiet_state s"
  by (simp add: quiet_state_def emit_def)

lemma quiet_alloc: "quiet_state s \<Longrightarrow> quiet_state (alloc s)"
  by (simp add: quiet_state_def alloc_def)

lemma quiet_schedule: "silent job \<Longrightarrow> quiet_state s \<Longrightarrow> quiet_state (schedule d job s)"
  by (simp add: quiet_state_def schedule_def set_enqueue_ev)

lemma quiet_request: "silent job \<Longrightarrow> quiet_state s \<Longrightarrow> quiet_state (request env ev job s)"
  by (simp add: quiet_state_def request_def schedule_def emit_def set_enqueue_ev)


lemma pending_silent:
  assumes "quiet_state s" and "promises s p = Some (Pending rs)"
  shows "\<forall>rc \<in> set rs. silent (fst rc v) \<and> silent (fst (snd rc) e)"
  using assms by (simp add: quiet_state_def silent_reaction_def)

lemma quiet_settle:
  assumes "\<And>rs'. st \<noteq> Pending rs'"
    and "quiet_state s" and "promises s p = Some (Pending rs)"
    and "\<forall>rc \<in> set rs. silent (fst (g rc))"
  shows "quiet_state (s\<lparr>promises := (promises s)(p \<mapsto> st), microtasks := microtasks s @ map g rs\<rparr>)"
  using assms by (auto simp: quiet_state_def)

lemma quiet_reject:
  assumes q: "quiet_state s"
  shows "quiet_state (reject_promise p e s)"
proof (cases "promises s p")
  case None
  with q show ?thesis by (simp add: reject_promise_def)
next
  case (Some st)
  show ?thesis
  proof (cases st)
    case (Pending rs)
    from pending_silent [OF q, of p rs undefined e] Some Pending
    have "\<forall>rc \<in> set rs. silent (fst ((\<lambda>(f, r, t). (r e, t)) rc))"
      by (auto simp: case_prod_beta)
    from quiet_settle [OF _ q _ this, of "Rejected e (rs \<noteq> [])" p] Some Pending show ?thesis
      by (simp add: reject_promise_def)
  qed (use Some q in \<open>simp_all add: reject_promise_def\<close>)
qed

lemma quiet_resolve:
  assumes q: "quiet_state s"
  shows "quiet_state (resolve_promise p v s)"
proof (cases "promises s p")
  case None
  with q show ?thesis by (simp add: resolve_promise_def)
next
  case (Some st)
  show ?thesis
  proof (cases st)
    case (Pending rs)
    from pending_silent [OF q, of p rs v undefined] Some Pending
    have "\<forall>rc \<in> set rs. silent (fst ((\<lambda>(f, r, t). (f v, t)) rc))"
      by (auto simp: case_prod_beta)
    from quiet_settle [OF _ q _ this, of "Fulfilled v" p] Some Pending
    have plain: "quiet_state (s\<lparr>promises := (promises s)(p \<mapsto> Fulfilled v),
        microtasks := microtasks s @ map (\<lambda>(f, r, t). (f v, t)) rs\<rparr>)"
      by simp
    show ?thesis
    proof (cases v)
      case (Prom x)
      have "quiet_state (s\<lparr>microtasks := microtasks s @ [(adopt p x, Top)]\<rparr>)"
        using q by (simp add: quiet_state_def silent_adopt)
      with Some Pending Prom q show ?thesis
        by (simp add: resolve_promise_def quiet_reject)
    qed (use Some Pending plain in \<open>simp_all add: resolve_promise_def\<close>)
  qed (use Some q in \<open>simp_all add: resolve_promise_def\<close>)
qed

lemma quiet_subscribe:
  assumes "silent_reaction rc" and "quiet_state s"
  shows "quiet_state (subscribe p rc s)"
proof (cases "promises s p")
  case None
  with assms show ?thesis by (simp add: subscribe_def)
next
  case (Some st)
  show ?thesis
  proof (cases st)
    case (Pending rs)
    with Some assms have "\<forall>rc \<in> set rs. silent_reaction rc"
      by (simp add: quiet_state_def)
    with Some Pending assms show ?thesis
      by (auto simp: quiet_state_def subscribe_def)
  next
    case (Fulfilled v)
    with Some assms show ?thesis
      by (auto simp: quiet_state_def subscribe_def silent_reaction_def)
  next
    case (Rejected e h)
    with Some assms show ?thesis
      by (auto simp: quiet_state_def subscribe_def silent_reaction_def)
  qed
qed

lemma quiet_finish_return: "quiet_state s \<Longrightarrow> quiet_state (finish_return tgt v s)"
  by (cases tgt) (simp_all add: finish_return_def quiet_resolve, simp add: quiet_state_def)

lemma quiet_finish_throw: "quiet_state s \<Longrightarrow> quiet_state (finish_throw tgt e s)"
  by (cases tgt) (simp_all add: finish_throw_def quiet_reject, simp_all add: quiet_state_def)

lemma quiet_vars:
  "quiet_state (s\<lparr>vars := x, next_var := y\<rparr>) = quiet_state s"
  "quiet_state (s\<lparr>vars := x\<rparr>) = quiet_state s"
  by (simp_all add: quiet_state_def)

lemma silent_defers: "silent p \<Longrightarrow> defers_silent p"
  by (induction p) simp_all

lemmas quiet_simps =
  quiet_emit quiet_alloc quiet_schedule quiet_request quiet_reject quiet_resolve
  quiet_subscribe quiet_finish_return quiet_finish_throw quiet_vars silent_http_job
  silent_reaction_def

lemma exec_quiet:
  "defers_silent p \<Longrightarrow> quiet_state s \<Longrightarrow> quiet_state (exec env p tgt s)"
  by (induction p arbitrary: tgt s) (simp_all add: quiet_simps)

subsection \<open>The whole script\<close>

lemma step_quiet:
  assumes q: "quiet_state s"
  shows "quiet_state (step env s) \<and> loud (observed (step env s)) = loud (observed s)"
proof (cases "microtasks s")
  case Nil
  show ?thesis
  proof (cases "events s")
    case Nil
    with \<open>microtasks s = []\<close> q show ?thesis by (simp add: step_def)
  next
    case (Cons ev es)
    obtain due p where ev: "ev = (due, p)" by (cases ev)
    let ?s = "s\<lparr>events := es, now := max (now s) due\<rparr>"
    from q Cons ev have "silent p" and "quiet_state ?s"
      by (simp_all add: quiet_state_def)
    moreover from Cons ev \<open>microtasks s = []\<close> have "step env s = exec env p Top ?s"
      by (simp add: step_def)
    ultimately show ?thesis
      by (simp add: exec_quiet silent_defers exec_silent_loud observed_simps)
  qed
next
  case (Cons job ms)
  obtain p tgt where job: "job = (p, tgt)" by (cases job)
  let ?s = "s\<lparr>microtasks := ms\<rparr>"
  from q Cons job have "silent p" and "quiet_state ?s"
    by (simp_all add: quiet_state_def)
  moreover from Cons job have "step env s = exec env p tgt ?s"
    by (simp add: step_def)
  ultimately show ?thesis
    by (simp add: exec_quiet silent_defers exec_silent_loud observed_simps)
qed

lemma run_loop_quiet:
  "quiet_state s \<Longrightarrow> loud (observed (run_loop env n s)) = loud (observed s)"
proof (induction n arbitrary: s)
  case 0
  show ?case by simp
next
  case (Suc n)
  from step_quiet [OF Suc.prems, of env] Suc.IH [of "step env s"] show ?case
    by simp
qed

lemma quiet_init: "quiet_state init"
  by (simp add: quiet_state_def init_def)

lemma run_loud:
  assumes "defers_silent p"
  shows "loud (observed (run env n p)) = loud (observed (boot env p))"
proof -
  have "quiet_state (boot env p)"
    unfolding boot_def by (rule exec_quiet [OF assms quiet_init])
  then show ?thesis
    by (simp add: run_def run_loop_quiet)
qed

lemmas function_defs =
  scavengerHuntWithCallbacks_def scavengerHuntWithPromiseDotThen_def
  scavengerHuntWithPromiseAsyncAwait_def logChainWithDotThen_def logChainWithAwait_def
  getCNN_async_await_def countDownWithCallback_def countDownWithPromiseDotThen_def
  countDownWithPromiseAsyncAwait_def waitTwoSecondsWithCallback_def
  waitTwoSecondsWithPromise_def

lemma script_defers_silent: "defers_silent (script toString)"
  by (simp add: script_def function_defs readFilePromise_def dot_then_def dot_catch_def
      of_buffer_def helper_def Let_def split: sum.split val.split)

lemma script_boot_observed:
  "observed (boot env (script toString)) =
     [FileRead one, FileRead one, FileRead one,
      Called F_scavengerHuntWithCallbacks, FileRead one,
      Called F_scavengerHuntWithPromiseDotThen, FileRead one,
      Called F_scavengerHuntWithPromiseAsyncAwait, FileRead one,
      Called F_logChainWithDotThen, FileRead one,
      Called F_logChainWithAwait, FileRead one,
      Printed [Str marker1],
      Called F_getCNN_async_await, Printed [Str marker2], HttpRequest cnn,
      Printed [Str marker3],
      Called F_countDownWithCallback, Called F_waitTwoSecondsWithCallback, TimerSet 2000,
      Called F_countDownWithPromiseDotThen, Called F_waitTwoSecondsWithPromise, TimerSet 2000,
      Called F_countDownWithPromiseAsyncAwait, Called F_waitTwoSecondsWithPromise,
      TimerSet 2000]"
  by (simp add: script_def function_defs eval_defs del: enqueue_ev.simps)

lemma script_loud:
  "loud (observed (run env n (script toString))) =
     [Called F_scavengerHuntWithCallbacks,
      Called F_scavengerHuntWithPromiseDotThen,
      Called F_scavengerHuntWithPromiseAsyncAwait,
      Called F_logChainWithDotThen,
      Called F_logChainWithAwait,
      Called F_getCNN_async_await, HttpRequest cnn,
      Called F_countDownWithCallback,
      Called F_countDownWithPromiseDotThen,
      Called F_countDownWithPromiseAsyncAwait]"
proof -
  have "loud (observed (run env n (script toString))) =
      loud (observed (boot env (script toString)))"
    by (rule run_loud [OF script_defers_silent])
  also have "\<dots> =
     [Called F_scavengerHuntWithCallbacks,
      Called F_scavengerHuntWithPromiseDotThen,
      Called F_scavengerHuntWithPromiseAsyncAwait,
      Called F_logChainWithDotThen,
      Called F_logChainWithAwait,
      Called F_getCNN_async_await, HttpRequest cnn,
      Called F_countDownWithCallback,
      Called F_countDownWithPromiseDotThen,
      Called F_countDownWithPromiseAsyncAwait]"
    by (simp add: script_boot_observed loud_def helper_def)
  finally show ?thesis .
qed

lemma requests_loud:
  "requests s =
     concat (map (\<lambda>ev. case ev of HttpRequest url \<Rightarrow> [url] | _ \<Rightarrow> []) (loud (observed s)))"
proof -
  have "concat (map (\<lambda>ev. case ev of HttpRequest url \<Rightarrow> [url] | _ \<Rightarrow> []) evs) =
      concat (map (\<lambda>ev. case ev of HttpRequest url \<Rightarrow> [url] | _ \<Rightarrow> []) (loud evs))" for evs
    by (induction evs) (simp_all add: loud_def split: event.split)
  then show ?thesis
    by (simp add: requests_def)
qed

lemma demo_calls_loud:
  "demo_calls s =
     concat (map (\<lambda>ev. case ev of Called f \<Rightarrow> [f] | _ \<Rightarrow> []) (loud (observed s)))"
proof -
  have "filter (\<lambda>f. \<not> helper f)
        (concat (map (\<lambda>ev. case ev of Called f \<Rightarrow> [f] | _ \<Rightarrow> []) evs)) =
      concat (map (\<lambda>ev. case ev of Called f \<Rightarrow> [f] | _ \<Rightarrow> []) (loud evs))" for evs
    by (induction evs) (simp_all add: loud_def split: event.split)
  then show ?thesis
    by (simp add: demo_calls_def calls_def)
qed

lemma script_requests: "requests (run env n (script toString)) = [cnn]"
  by (simp add: requests_loud script_loud)

lemma script_demo_calls:
  "demo_calls (run env n (script toString)) =
     [F_scavengerHuntWithCallbacks, F_scavengerHuntWithPromiseDotThen,
      F_scavengerHuntWithPromiseAsyncAwait, F_logChainWithDotThen, F_logChainWithAwait,
      F_getCNN_async_await, F_countDownWithCallback, F_countDownWithPromiseDotThen,
      F_countDownWithPromiseAsyncAwait]"
  by (simp add: demo_calls_loud script_loud)

lemma printed_grows:
  assumes "prefix (observed s) (observed s')"
  shows "prefix (printed s) (printed s')"
proof -
  from assms obtain zs where "observed s' = observed s @ zs"
    by (auto simp: prefix_def)
  then show ?thesis
    by (simp add: printed_def)
qed

lemma script_printed_boot:
  "printed (boot env (script toString)) = [[Str marker1], [Str marker2], [Str marker3]]"
  by (simp add: printed_def script_boot_observed)

lemma summary_parts:
  assumes "summary s = (evs, q, u, r)"
  shows "observed s = evs" and "quiescent s = q" and "unhandled s = u" and "returned s = r"
  using assms by (simp_all add: summary_def)

lemma summary_more:
  assumes "summary (run env n p) = (evs, True, u, r)"
  shows "summary (run env (n + d) p) = (evs, True, u, r)"
  by (rule summary_enough [OF assms]) simp

lemmas console_defs = printed_def reads_def chain_events_def

section \<open>The claims\<close>

text \<open>
  C1.  For every valid chain of two files (the first file is read, its content with the
  final code unit trimmed names a second file that is read too), each of
  \<open>scavengerHuntWithCallbacks\<close>, \<open>scavengerHuntWithPromiseDotThen\<close> and
  \<open>scavengerHuntWithPromiseAsyncAwait\<close>, loaded alone and run until nothing is left
  to do, prints one and the same line: the trimmed content of the second file.  Seven
  turns of the event loop are enough for the slowest of the three, and more turns change
  nothing.
\<close>

theorem scavenger_hunts_print_content:
  assumes "fs env fileName1 = Inr data1"
    and "fs env (string toString data1) = Inr data2"
    and "7 \<le> n"
  shows
    "printed (run env n (scavengerHuntWithCallbacks toString fileName1 (Return Undefined))) =
       [[Str (string toString data2)]] \<and>
     printed (run env n (scavengerHuntWithPromiseDotThen toString fileName1 return_promise)) =
       [[Str (string toString data2)]] \<and>
     printed (run env n (scavengerHuntWithPromiseAsyncAwait toString fileName1 return_promise)) =
       [[Str (string toString data2)]]"
proof -
  from \<open>7 \<le> n\<close> have "2 \<le> n" and "4 \<le> n" by simp_all
  have "observed (run env n (scavengerHuntWithCallbacks toString fileName1 (Return Undefined))) =
      Called F_scavengerHuntWithCallbacks #
      chain_events env toString oops_lower (\<lambda>name2 content. content) fileName1"
    by (rule summary_parts(1) [OF summary_enough [OF hunt_callbacks_summary \<open>2 \<le> n\<close>]])
  moreover
  have "observed (run env n (scavengerHuntWithPromiseDotThen toString fileName1 return_promise)) =
      Called F_scavengerHuntWithPromiseDotThen #
      chain_events env toString oops_lower (\<lambda>name2 content. content) fileName1"
    by (rule summary_parts(1) [OF summary_enough [OF hunt_then_summary \<open>7 \<le> n\<close>]])
  moreover
  have "observed (run env n (scavengerHuntWithPromiseAsyncAwait toString fileName1 return_promise)) =
      Called F_scavengerHuntWithPromiseAsyncAwait #
      chain_events env toString oops_upper (\<lambda>name2 content. content) fileName1"
    by (rule summary_parts(1) [OF summary_enough [OF hunt_await_summary \<open>4 \<le> n\<close>]])
  ultimately show ?thesis
    using assms(1,2) by (simp add: console_defs)
qed

theorem scavenger_hunts_print_content_witness:
  "fs treasure_env one = Inr (bytes ''two\<newline>'') \<and>
   fs treasure_env (string toString_ascii (bytes ''two\<newline>'')) = Inr (bytes ''treasure\<newline>'') \<and>
   (7::nat) \<le> 7 \<and>
   printed (run treasure_env 7 (scavengerHuntWithCallbacks toString_ascii one (Return Undefined))) =
     [[Str (lit ''treasure'')]] \<and>
   printed (run treasure_env 7 (scavengerHuntWithPromiseDotThen toString_ascii one return_promise)) =
     [[Str (lit ''treasure'')]] \<and>
   printed (run treasure_env 7 (scavengerHuntWithPromiseAsyncAwait toString_ascii one return_promise)) =
     [[Str (lit ''treasure'')]]"
  using scavenger_hunts_print_content [of treasure_env one "bytes ''two\<newline>''" toString_ascii
      "bytes ''treasure\<newline>''" 7]
  by (simp add: treasure_env_def one_def string_ascii_bytes lit_eq_iff)




text \<open>
  C3.  The order of the markers.  When the top level of the script has run to its end,
  the console holds exactly the markers 1, 2 and 3, in this order, and whatever the
  event loop prints later comes after them; marker 4 is not one of the three.  The same
  holds for lines 115 to 123 alone, where the console ends as 1, 2, 3 and then, when the
  request succeeds, 4.
\<close>

theorem resumed_marker_after_synchronous_block:
  "printed (boot env (script toString)) = [[Str marker1], [Str marker2], [Str marker3]] \<and>
   prefix (printed (boot env (script toString))) (printed (run env n (script toString))) \<and>
   printed (boot env interleaving) = [[Str marker1], [Str marker2], [Str marker3]] \<and>
   printed (run env (2 + n) interleaving) =
     [[Str marker1], [Str marker2], [Str marker3]] @
     (case net env cnn of Inl e \<Rightarrow> [] | Inr r \<Rightarrow> [[Str marker4]]) \<and>
   [Str marker4] \<notin> set [[Str marker1], [Str marker2], [Str marker3]]"
proof -
  have "printed (run env (2 + n) interleaving) =
     [[Str marker1], [Str marker2], [Str marker3]] @
     (case net env cnn of Inl e \<Rightarrow> [] | Inr r \<Rightarrow> [[Str marker4]])"
  proof (cases "net env cnn")
    case (Inl e)
    from summary_parts(1) [OF summary_more [OF interleaving_fails [OF Inl], of n]] Inl
    show ?thesis by (simp add: printed_def)
  next
    case (Inr r)
    from summary_parts(1) [OF summary_more [OF interleaving_answers [OF Inr], of n]] Inr
    show ?thesis by (simp add: printed_def)
  qed
  moreover have "printed (boot env interleaving) = [[Str marker1], [Str marker2], [Str marker3]]"
    by (simp add: printed_def interleaving_boot)
  moreover have "[Str marker4] \<notin> set [[Str marker1], [Str marker2], [Str marker3]]"
    by (simp add: marker1_def marker2_def marker3_def marker4_def lit_eq_iff)
  moreover have "prefix (printed (boot env (script toString))) (printed (run env n (script toString)))"
    by (rule printed_grows [OF run_grows])
  ultimately show ?thesis
    by (simp add: script_printed_boot)
qed


lemma caught_and_printed_chain:
  assumes "summary s = (Called f # chain_events env toString notice line fileName1, True, [], r)"
  shows "caught_and_printed env toString notice fileName1 s"
  using summary_parts [OF assms]
  by (simp add: caught_and_printed_def console_defs split: sum.split)

text \<open>
  C4, as stated, fails.  \<open>getCNN_async_await\<close> has no \<^verbatim>\<open>try\<close> around its
  \<^verbatim>\<open>await\<close>: when the request fails, nothing is printed about the failure, and the
  promise the function returned ends rejected with no handler attached.
\<close>

theorem getCNN_failure_is_not_caught:
  "net empty_env cnn = Inl ''ENOTFOUND'' \<and>
   printed (run empty_env 2 (getCNN_async_await return_promise)) = [[Str marker2]] \<and>
   returned (run empty_env 2 (getCNN_async_await return_promise)) =
     Some (Rejected (ErrV ''ENOTFOUND'') False) \<and>
   unhandled (run empty_env 2 (getCNN_async_await return_promise)) = [0] \<and>
   quiescent (run empty_env 2 (getCNN_async_await return_promise))"
proof -
  have failed: "net empty_env cnn = Inl ''ENOTFOUND''"
    by (simp add: empty_env_def)
  from summary_parts [OF getCNN_await_fails [OF failed]] failed show ?thesis
    by (simp add: printed_def)
qed

text \<open>
  C4, amended.  In the five functions that read files (the three scavenger hunts and the
  two log chains), every failure of a read, the first or the second, is caught and
  printed once behind a static prefix; no file is read after the failure, nothing is
  left to run, no exception reaches the top and no rejection stays without a handler.
  For \<open>scavengerHuntWithCallbacks\<close>, which calls \<^verbatim>\<open>fs.readFile\<close> itself, this
  is stated for the worlds where the runtime accepts the names of the chain: with a
  refused name the call throws where the function has no \<^verbatim>\<open>try\<close>, and nothing is
  said here about that.  The four others read through \<open>readFilePromise\<close>, for which
  a refused name is a read that fails.  The two \<open>getCNN\<close> functions attach no
  handler: a failed request prints nothing and leaves the promise they return rejected.
\<close>

theorem file_read_failures_are_caught:
  assumes "7 \<le> n"
  shows
    "(names_accepted env toString fileName1 \<longrightarrow>
       caught_and_printed env toString oops_lower fileName1
         (run env n (scavengerHuntWithCallbacks toString fileName1 (Return Undefined)))) \<and>
     caught_and_printed env toString oops_lower fileName1
       (run env n (scavengerHuntWithPromiseDotThen toString fileName1 return_promise)) \<and>
     caught_and_printed env toString oops_upper fileName1
       (run env n (scavengerHuntWithPromiseAsyncAwait toString fileName1 return_promise)) \<and>
     caught_and_printed env toString oops_lower fileName1
       (run env n (logChainWithDotThen toString fileName1 return_promise)) \<and>
     caught_and_printed env toString oops_upper fileName1
       (run env n (logChainWithAwait toString fileName1 return_promise)) \<and>
     (case net env cnn of
        Inl e \<Rightarrow>
          printed (run env n (getCNN_async_await return_promise)) = [[Str marker2]] \<and>
          returned (run env n (getCNN_async_await return_promise)) =
            Some (Rejected (ErrV e) False) \<and>
          printed (run env n (getCNN_dot_then return_promise)) = [[Str marker2]] \<and>
          returned (run env n (getCNN_dot_then return_promise)) =
            Some (Rejected (ErrV e) False)
      | Inr r \<Rightarrow> True)"
proof -
  from assms have "2 \<le> n" and "4 \<le> n" by simp_all
  have "case net env cnn of
        Inl e \<Rightarrow>
          printed (run env n (getCNN_async_await return_promise)) = [[Str marker2]] \<and>
          returned (run env n (getCNN_async_await return_promise)) =
            Some (Rejected (ErrV e) False) \<and>
          printed (run env n (getCNN_dot_then return_promise)) = [[Str marker2]] \<and>
          returned (run env n (getCNN_dot_then return_promise)) =
            Some (Rejected (ErrV e) False)
      | Inr r \<Rightarrow> True"
  proof (cases "net env cnn")
    case (Inl e)
    from summary_parts [OF summary_enough [OF getCNN_await_fails [OF Inl] \<open>2 \<le> n\<close>]]
      summary_parts [OF summary_enough [OF getCNN_then_fails [OF Inl] \<open>2 \<le> n\<close>]] Inl
    show ?thesis by (simp add: printed_def)
  next
    case (Inr r)
    then show ?thesis by simp
  qed
  then show ?thesis
    by (simp add:
        caught_and_printed_chain [OF summary_enough [OF hunt_callbacks_summary \<open>2 \<le> n\<close>]]
        caught_and_printed_chain [OF summary_enough [OF hunt_then_summary \<open>7 \<le> n\<close>]]
        caught_and_printed_chain [OF summary_enough [OF hunt_await_summary \<open>4 \<le> n\<close>]]
        caught_and_printed_chain [OF summary_enough [OF chain_then_summary \<open>7 \<le> n\<close>]]
        caught_and_printed_chain [OF summary_enough [OF chain_await_summary \<open>4 \<le> n\<close>]])
qed

theorem file_read_failures_are_caught_witness:
  "(7::nat) \<le> 7 \<and>
   names_accepted dangling_env toString_ascii one \<and>
   fs dangling_env one = Inr (bytes ''two\<newline>'') \<and>
   fs dangling_env (string toString_ascii (bytes ''two\<newline>'')) = Inl ''ENOENT'' \<and>
   net dangling_env cnn = Inr (lit ''<html>'') \<and>
   printed (run dangling_env 7 (scavengerHuntWithCallbacks toString_ascii one (Return Undefined))) =
     [[Str oops_lower, ErrV ''ENOENT'']] \<and>
   reads (run dangling_env 7 (scavengerHuntWithCallbacks toString_ascii one (Return Undefined))) =
     [lit ''one'', lit ''two''] \<and>
   printed (run dangling_env 7 (scavengerHuntWithPromiseDotThen toString_ascii one return_promise)) =
     [[Str oops_lower, ErrV ''ENOENT'']] \<and>
   printed (run dangling_env 7 (scavengerHuntWithPromiseAsyncAwait toString_ascii one return_promise)) =
     [[Str oops_upper, ErrV ''ENOENT'']] \<and>
   printed (run dangling_env 7 (logChainWithDotThen toString_ascii one return_promise)) =
     [[Str oops_lower, ErrV ''ENOENT'']] \<and>
   printed (run dangling_env 7 (logChainWithAwait toString_ascii one return_promise)) =
     [[Str oops_upper, ErrV ''ENOENT'']] \<and>
   unhandled (run dangling_env 7 (logChainWithAwait toString_ascii one return_promise)) = [] \<and>
   quiescent (run dangling_env 7 (logChainWithAwait toString_ascii one return_promise))"
  using file_read_failures_are_caught [of 7 dangling_env toString_ascii one]
  by (simp add: caught_and_printed_def names_accepted_def accepted_lit dangling_env_def one_def
      string_ascii_bytes lit_eq_iff)

text \<open>
  C5.  The three countdowns, each loaded alone.  All three print four lines, 2000, 4000,
  6000 and 8000 milliseconds after the call.  The lines are not the same: the last line
  of the callback variant has two exclamation marks after \<^verbatim>\<open>it\<close> where the others
  have one, and the third line of the \<^verbatim>\<open>await\<close> variant has the word
  \<^verbatim>\<open>really\<close>, which the others lack.
\<close>

theorem countdown_lines_differ:
  "printed_at (run env (14 + n) (countDownWithCallback (Return Undefined))) =
     [(2000, [Str (lit ''You have six seconds, starting now!!'')]),
      (4000, [Str (lit ''You have four seconds left.'')]),
      (6000, [Str (lit ''You have just two seconds left. You'd better hurry!!'')]),
      (8000, [Str (lit ''That's it!! Time's up!!'')])] \<and>
   printed_at (run env (14 + n) (countDownWithPromiseDotThen (Return Undefined))) =
     [(2000, [Str (lit ''You have six seconds, starting now!!'')]),
      (4000, [Str (lit ''You have four seconds left.'')]),
      (6000, [Str (lit ''You have just two seconds left. You'd better hurry!!'')]),
      (8000, [Str (lit ''That's it! Time's up!!'')])] \<and>
   printed_at (run env (14 + n) (countDownWithPromiseAsyncAwait return_promise)) =
     [(2000, [Str (lit ''You have six seconds, starting now!!'')]),
      (4000, [Str (lit ''You have four seconds left.'')]),
      (6000, [Str (lit ''You have just two seconds left. You'd really better hurry!!'')]),
      (8000, [Str (lit ''That's it! Time's up!!'')])] \<and>
   lit ''That's it!! Time's up!!'' \<noteq> lit ''That's it! Time's up!!'' \<and>
   lit ''You have just two seconds left. You'd better hurry!!'' \<noteq>
     lit ''You have just two seconds left. You'd really better hurry!!''"
proof -
  have "run env (14 + n) (countDownWithCallback (Return Undefined)) =
      run env 4 (countDownWithCallback (Return Undefined))"
    by (rule run_enough [OF countdown_callback_run(2)]) simp
  moreover
  have "run env (14 + n) (countDownWithPromiseDotThen (Return Undefined)) =
      run env 14 (countDownWithPromiseDotThen (Return Undefined))"
    by (rule run_enough [OF countdown_then_run(2)]) simp
  moreover
  have "run env (14 + n) (countDownWithPromiseAsyncAwait return_promise) =
      run env 8 (countDownWithPromiseAsyncAwait return_promise)"
    by (rule run_enough [OF countdown_await_run(2)]) simp
  ultimately show ?thesis
    by (simp add: countdown_callback_run(1) countdown_then_run(1) countdown_await_run(1)
        lit_eq_iff)
qed

lemma chain_events_same_trimmed:
  assumes "same_trimmed toString env env'"
  shows "chain_events env toString notice line fileName1 =
    chain_events env' toString notice line fileName1"
proof -
  have same: "map_sum id (string toString) (fs env path) =
      map_sum id (string toString) (fs env' path)" for path
    using assms by (simp add: same_trimmed_def)
  show ?thesis
  proof (cases "fs env fileName1")
    case (Inl e)
    with same [of fileName1] have "fs env' fileName1 = Inl e"
      by (cases "fs env' fileName1") simp_all
    with Inl show ?thesis by (simp add: chain_events_def)
  next
    case first: (Inr data1)
    with same [of fileName1] obtain data1' where
      first': "fs env' fileName1 = Inr data1'" and
      name: "string toString data1' = string toString data1"
      by (cases "fs env' fileName1") simp_all
    show ?thesis
    proof (cases "fs env (string toString data1)")
      case (Inl e)
      with same [of "string toString data1"] have "fs env' (string toString data1) = Inl e"
        by (cases "fs env' (string toString data1)") simp_all
      with Inl first first' name show ?thesis by (simp add: chain_events_def)
    next
      case (Inr data2)
      with same [of "string toString data1"] obtain data2' where
        "fs env' (string toString data1) = Inr data2'" and
        "string toString data2' = string toString data2"
        by (cases "fs env' (string toString data1)") simp_all
      with Inr first first' name show ?thesis by (simp add: chain_events_def)
    qed
  qed
qed

lemma printed_same_trimmed:
  assumes "summary (run env n p) = (f # chain_events env toString notice line fileName1, True, u, r)"
    and "summary (run env' n p) = (f # chain_events env' toString notice line fileName1, True, u', r')"
    and "same_trimmed toString env env'"
    and "n \<le> m"
  shows "printed (run env m p) = printed (run env' m p)"
  using summary_parts(1) [OF summary_enough [OF assms(1,4)]]
    summary_parts(1) [OF summary_enough [OF assms(2,4)]]
    chain_events_same_trimmed [OF assms(3), of notice line fileName1]
  by (simp add: printed_def)

text \<open>
  C6, as stated, fails.  The text of an empty file is empty, and \<open>string\<close> gives
  it back whole: nothing is removed, so the result is not one code unit shorter than the
  text.
\<close>

theorem string_of_empty_removes_nothing:
  "toString_ascii [] = [] \<and>
   string toString_ascii [] = toString_ascii [] \<and>
   int (length (string toString_ascii [])) \<noteq> int (length (toString_ascii [])) - 1"
  by (simp add: string_butlast toString_ascii_def)

text \<open>
  C6, amended.  For every byte input whose text is not empty, the result of
  \<open>string\<close> is the text without its final UTF-16 code unit (the text is the result
  followed by that one code unit; when the text ends in a character that takes two code
  units, the first of the two stays); for an input whose text is empty the result is
  empty.  File data reaches the console only through \<open>string\<close>: when two file
  systems cannot be told apart through it, each of the five functions that print file
  data prints the same lines in both.
\<close>

theorem string_drops_last_and_guards_console:
  "(toString data \<noteq> [] \<longrightarrow>
     toString data = string toString data @ [last (toString data)]) \<and>
   (toString data = [] \<longrightarrow> string toString data = []) \<and>
   string toString data = butlast (toString data) \<and>
   (same_trimmed toString env env' \<longrightarrow>
     printed (run env (7 + n) (scavengerHuntWithCallbacks toString fileName1 (Return Undefined))) =
     printed (run env' (7 + n) (scavengerHuntWithCallbacks toString fileName1 (Return Undefined))) \<and>
     printed (run env (7 + n) (scavengerHuntWithPromiseDotThen toString fileName1 return_promise)) =
     printed (run env' (7 + n) (scavengerHuntWithPromiseDotThen toString fileName1 return_promise)) \<and>
     printed (run env (7 + n) (scavengerHuntWithPromiseAsyncAwait toString fileName1 return_promise)) =
     printed (run env' (7 + n) (scavengerHuntWithPromiseAsyncAwait toString fileName1 return_promise)) \<and>
     printed (run env (7 + n) (logChainWithDotThen toString fileName1 return_promise)) =
     printed (run env' (7 + n) (logChainWithDotThen toString fileName1 return_promise)) \<and>
     printed (run env (7 + n) (logChainWithAwait toString fileName1 return_promise)) =
     printed (run env' (7 + n) (logChainWithAwait toString fileName1 return_promise)))"
proof -
  have "toString data = butlast (toString data) @ [last (toString data)]"
    if "toString data \<noteq> []"
    using that by simp
  moreover
  have "printed (run env (7 + n) (scavengerHuntWithCallbacks toString fileName1 (Return Undefined))) =
    printed (run env' (7 + n) (scavengerHuntWithCallbacks toString fileName1 (Return Undefined)))"
    if "same_trimmed toString env env'"
    by (rule printed_same_trimmed [OF hunt_callbacks_summary hunt_callbacks_summary that]) simp
  moreover
  have "printed (run env (7 + n) (scavengerHuntWithPromiseDotThen toString fileName1 return_promise)) =
    printed (run env' (7 + n) (scavengerHuntWithPromiseDotThen toString fileName1 return_promise))"
    if "same_trimmed toString env env'"
    by (rule printed_same_trimmed [OF hunt_then_summary hunt_then_summary that]) simp
  moreover
  have "printed (run env (7 + n) (scavengerHuntWithPromiseAsyncAwait toString fileName1 return_promise)) =
    printed (run env' (7 + n) (scavengerHuntWithPromiseAsyncAwait toString fileName1 return_promise))"
    if "same_trimmed toString env env'"
    by (rule printed_same_trimmed [OF hunt_await_summary hunt_await_summary that]) simp
  moreover
  have "printed (run env (7 + n) (logChainWithDotThen toString fileName1 return_promise)) =
    printed (run env' (7 + n) (logChainWithDotThen toString fileName1 return_promise))"
    if "same_trimmed toString env env'"
    by (rule printed_same_trimmed [OF chain_then_summary chain_then_summary that]) simp
  moreover
  have "printed (run env (7 + n) (logChainWithAwait toString fileName1 return_promise)) =
    printed (run env' (7 + n) (logChainWithAwait toString fileName1 return_promise))"
    if "same_trimmed toString env env'"
    by (rule printed_same_trimmed [OF chain_await_summary chain_await_summary that]) simp
  ultimately show ?thesis
    by (simp add: string_butlast)
qed

lemma same_trimmed_treasure_ragged: "same_trimmed toString_ascii treasure_env ragged_env"
  by (simp add: same_trimmed_def treasure_env_def ragged_env_def string_ascii_bytes)

theorem string_drops_last_and_guards_console_witness:
  "toString_ascii (bytes ''two!'') \<noteq> [] \<and>
   toString_ascii (bytes ''two!'') = string toString_ascii (bytes ''two!'') @ lit ''!'' \<and>
   string toString_ascii (bytes ''two!'') = lit ''two'' \<and>
   same_trimmed toString_ascii treasure_env ragged_env \<and>
   printed (run treasure_env 7 (logChainWithDotThen toString_ascii one return_promise)) =
     [[Str (lit ''one=>two=>treasure'')]] \<and>
   printed (run ragged_env 7 (logChainWithDotThen toString_ascii one return_promise)) =
     [[Str (lit ''one=>two=>treasure'')]]"
proof -
  have "observed (run treasure_env 7 (logChainWithDotThen toString_ascii one return_promise)) =
      Called F_logChainWithDotThen #
      chain_events treasure_env toString_ascii oops_lower (arrow_line one) one"
    by (rule summary_parts(1) [OF chain_then_summary])
  then have "printed (run treasure_env 7 (logChainWithDotThen toString_ascii one return_promise)) =
      [[Str (lit ''one=>two=>treasure'')]]"
    by (simp add: console_defs treasure_env_def one_def string_ascii_bytes lit_eq_iff
        arrow_line_def lit_append)
  moreover have "lit ''two!'' \<noteq> []" and "lit ''two!'' = lit ''two'' @ lit ''!''"
    by (simp_all add: lit_def)
  ultimately show ?thesis
    using string_drops_last_and_guards_console
      [of toString_ascii "bytes ''two!''" treasure_env ragged_env 0 one]
      same_trimmed_treasure_ragged
    by (simp add: string_ascii_bytes toString_ascii_bytes)
qed

text \<open>
  C7.  However long the script runs, in whatever world, it has sent exactly one request,
  to \<^verbatim>\<open>http://www.cnn.com\<close>.
\<close>

theorem one_outbound_request:
  "requests (run env n (script toString)) = [cnn] \<and> cnn = lit ''http://www.cnn.com''"
  by (simp add: script_requests) (simp add: cnn_def)

lemma count_demo_calls:
  "\<not> helper f \<Longrightarrow> count_list (calls s) f = count_list (demo_calls s) f"
proof -
  have "\<not> helper f \<Longrightarrow> count_list xs f = count_list (filter (\<lambda>g. \<not> helper g) xs) f" for xs
    by (induction xs) auto
  then show "\<not> helper f \<Longrightarrow> count_list (calls s) f = count_list (demo_calls s) f"
    by (simp add: demo_calls_def)
qed

text \<open>
  C8, as stated, fails: \<open>getCNN_dot_then\<close> is declared and never called.
\<close>

theorem getCNN_dot_then_is_never_called:
  "count_list (calls (run treasure_env 59 (script toString_ascii))) F_getCNN_dot_then = 0"
  by (simp add: count_demo_calls helper_def script_demo_calls)

text \<open>
  C8, amended.  Apart from the two helpers that wait, every function the script declares
  is entered exactly once, however long the script runs, except
  \<open>getCNN_dot_then\<close> and \<open>newPromise\<close>, which are never entered.
\<close>

theorem demonstrations_called_once:
  assumes "\<not> helper f"
  shows "count_list (calls (run env n (script toString))) f =
    (if f = F_getCNN_dot_then \<or> f = F_newPromise then 0 else 1)"
  using assms
  by (cases f) (simp_all add: count_demo_calls script_demo_calls, simp_all add: helper_def)

theorem demonstrations_called_once_witness:
  "\<not> helper F_logChainWithAwait \<and>
   count_list (calls (run treasure_env 59 (script toString_ascii))) F_logChainWithAwait = 1"
  using demonstrations_called_once [of F_logChainWithAwait treasure_env 59 toString_ascii]
  by (simp add: helper_def)

text \<open>
  C9.  For every valid chain of two files, \<open>logChainWithDotThen\<close> and
  \<open>logChainWithAwait\<close> print the same single line: the name of the first file, the
  trimmed content of the first file and the trimmed content of the second, joined by
  \<^verbatim>\<open>=>\<close>.
\<close>

theorem log_chains_print_same_line:
  assumes "fs env name1 = Inr data1"
    and "fs env (string toString data1) = Inr data2"
    and "7 \<le> n"
  shows
    "printed (run env n (logChainWithDotThen toString name1 return_promise)) =
       [[Str (name1 @ lit ''=>'' @ string toString data1 @ lit ''=>'' @ string toString data2)]] \<and>
     printed (run env n (logChainWithAwait toString name1 return_promise)) =
       [[Str (name1 @ lit ''=>'' @ string toString data1 @ lit ''=>'' @ string toString data2)]]"
proof -
  from \<open>7 \<le> n\<close> have "4 \<le> n" by simp
  have "observed (run env n (logChainWithDotThen toString name1 return_promise)) =
      Called F_logChainWithDotThen #
      chain_events env toString oops_lower (arrow_line name1) name1"
    by (rule summary_parts(1) [OF summary_enough [OF chain_then_summary \<open>7 \<le> n\<close>]])
  moreover
  have "observed (run env n (logChainWithAwait toString name1 return_promise)) =
      Called F_logChainWithAwait #
      chain_events env toString oops_upper (arrow_line name1) name1"
    by (rule summary_parts(1) [OF summary_enough [OF chain_await_summary \<open>4 \<le> n\<close>]])
  ultimately show ?thesis
    using assms(1,2) by (simp add: console_defs arrow_line_def)
qed

theorem log_chains_print_same_line_witness:
  "fs treasure_env one = Inr (bytes ''two\<newline>'') \<and>
   fs treasure_env (string toString_ascii (bytes ''two\<newline>'')) = Inr (bytes ''treasure\<newline>'') \<and>
   (7::nat) \<le> 7 \<and>
   printed (run treasure_env 7 (logChainWithDotThen toString_ascii one return_promise)) =
     [[Str (lit ''one=>two=>treasure'')]] \<and>
   printed (run treasure_env 7 (logChainWithAwait toString_ascii one return_promise)) =
     [[Str (lit ''one=>two=>treasure'')]]"
  using log_chains_print_same_line [of treasure_env one "bytes ''two\<newline>''" toString_ascii
      "bytes ''treasure\<newline>''" 7]
  by (simp add: treasure_env_def one_def string_ascii_bytes lit_eq_iff lit_append)

text \<open>
  C10.  Whatever the file system holds, the promise that
  \<open>scavengerHuntWithPromiseDotThen\<close> returns ends fulfilled with \<^verbatim>\<open>undefined\<close>,
  and when a read fails it is the trailing \<^verbatim>\<open>.catch\<close> that makes it so.  The chain
  has four promises: 0 of the first read, 1 and 2 of the two \<^verbatim>\<open>.then\<close>, and 3 of the
  \<^verbatim>\<open>.catch\<close>, which is attached to 2 and is the value the function returns.  After
  seven turns of the event loop nothing is left to run and 3 is fulfilled with
  \<^verbatim>\<open>undefined\<close>.  When the first or the second read fails, 2 is rejected with the
  error of that read, a handler was attached to it, and the one line of the console is the
  notice of the \<^verbatim>\<open>.catch\<close> with that error; when both reads succeed, 2 is fulfilled
  and the console has the trimmed content.  No promise is left rejected without a
  handler.
\<close>

theorem dot_then_promise_always_fulfils:
  "returned (run env (7 + n) (scavengerHuntWithPromiseDotThen toString fileName1 return_promise)) =
     Some (Fulfilled Undefined) \<and>
   quiescent (run env (7 + n) (scavengerHuntWithPromiseDotThen toString fileName1 return_promise)) \<and>
   unhandled (run env (7 + n) (scavengerHuntWithPromiseDotThen toString fileName1 return_promise)) = [] \<and>
   (let s = run env (7 + n) (scavengerHuntWithPromiseDotThen toString fileName1 return_promise) in
    result s = Some (Prom 3) \<and>
    promises s 3 = Some (Fulfilled Undefined) \<and>
    (case fs env fileName1 of
       Inl err \<Rightarrow>
         promises s 2 = Some (Rejected (ErrV err) True) \<and>
         printed s = [[Str oops_lower, ErrV err]]
     | Inr data1 \<Rightarrow>
         (case fs env (string toString data1) of
            Inl err \<Rightarrow>
              promises s 2 = Some (Rejected (ErrV err) True) \<and>
              printed s = [[Str oops_lower, ErrV err]]
          | Inr data2 \<Rightarrow>
              promises s 2 = Some (Fulfilled Undefined) \<and>
              printed s = [[Str (string toString data2)]])))"
proof -
  let ?p = "scavengerHuntWithPromiseDotThen toString fileName1 return_promise"
  have sum: "summary (run env 7 ?p) =
      (Called F_scavengerHuntWithPromiseDotThen #
       chain_events env toString oops_lower (\<lambda>name2 content. content) fileName1,
       True, [], Some (Fulfilled Undefined))"
    by (rule hunt_then_summary)
  have same: "run env (7 + n) ?p = run env 7 ?p"
    by (rule run_enough [OF summary_parts(2) [OF sum, simplified]]) simp
  have two: "(2::nat) = Suc (Suc 0)" and three: "(3::nat) = Suc (Suc (Suc 0))"
    by simp_all
  have chain: "result (run env 7 ?p) = Some (Prom 3) \<and>
    (case fs env fileName1 of
       Inl err \<Rightarrow>
         promises (run env 7 ?p) 2 = Some (Rejected (ErrV err) True) \<and>
         printed (run env 7 ?p) = [[Str oops_lower, ErrV err]]
     | Inr data1 \<Rightarrow>
         (case fs env (string toString data1) of
            Inl err \<Rightarrow>
              promises (run env 7 ?p) 2 = Some (Rejected (ErrV err) True) \<and>
              printed (run env 7 ?p) = [[Str oops_lower, ErrV err]]
          | Inr data2 \<Rightarrow>
              promises (run env 7 ?p) 2 = Some (Fulfilled Undefined) \<and>
              printed (run env 7 ?p) = [[Str (string toString data2)]]))"
  proof (cases "fs env fileName1")
    case (Inl err)
    from hunt_then_catch_first [OF Inl, of toString] summary_parts(1) [OF sum] Inl
    show ?thesis
      by (simp add: two three console_defs)
  next
    case first: (Inr data1)
    show ?thesis
    proof (cases "fs env (string toString data1)")
      case (Inl err)
      from hunt_then_catch_second [OF first Inl] summary_parts(1) [OF sum] first Inl
      show ?thesis
        by (simp add: two three console_defs)
    next
      case (Inr data2)
      from hunt_then_catch_none [OF first Inr] summary_parts(1) [OF sum] first Inr
      show ?thesis
        by (simp add: two three console_defs)
    qed
  qed
  from summary_parts [OF sum] chain
  have "promises (run env 7 ?p) 3 = Some (Fulfilled Undefined)"
    by (simp add: returned_def)
  with summary_parts [OF sum] chain show ?thesis
    by (simp only: same Let_def)
qed

theorem dot_then_promise_always_fulfils_witness:
  "fs dangling_env one = Inr (bytes ''two\<newline>'') \<and>
   fs dangling_env (string toString_ascii (bytes ''two\<newline>'')) = Inl ''ENOENT'' \<and>
   result (run dangling_env 7 (scavengerHuntWithPromiseDotThen toString_ascii one return_promise)) =
     Some (Prom 3) \<and>
   promises (run dangling_env 7 (scavengerHuntWithPromiseDotThen toString_ascii one return_promise)) 2 =
     Some (Rejected (ErrV ''ENOENT'') True) \<and>
   promises (run dangling_env 7 (scavengerHuntWithPromiseDotThen toString_ascii one return_promise)) 3 =
     Some (Fulfilled Undefined) \<and>
   printed (run dangling_env 7 (scavengerHuntWithPromiseDotThen toString_ascii one return_promise)) =
     [[Str oops_lower, ErrV ''ENOENT'']]"
  using dot_then_promise_always_fulfils [of dangling_env 0 toString_ascii one]
  by (simp add: Let_def dangling_env_def one_def string_ascii_bytes lit_eq_iff)

end
